theory Spec2Isabelle
  imports Main "HOL-Library.Sublist"
begin

unbundle bit_operations_syntax

text \<open>
  A model of \<open>sshkey.js\<close>: the function \<open>generateSharedSSHKey\<close> that creates a shared
  SSH key, a known_hosts file and two \<open>Host\<close> blocks of an SSH config file. A run takes
  the environment, the two command line arguments and a file system, and returns its exit
  status, the file system it leaves and the list of file system operations it did.
\<close>

section \<open>Strings\<close>

text \<open>
  JavaScript strings are modelled as \<open>string\<close> over ASCII. \<open>toLowerCase\<close> maps the
  letters A to Z to a to z and leaves every other character as it is; letters outside
  ASCII are not represented.
\<close>

definition toLowerCase_char :: "char \<Rightarrow> char" where
  "toLowerCase_char c =
     (let n = (of_char c :: nat) in if 65 \<le> n \<and> n \<le> 90 then char_of (n + 32) else c)"

definition toLowerCase :: "string \<Rightarrow> string" where
  "toLowerCase s = map toLowerCase_char s"

text \<open>\<open>String.prototype.includes\<close>: the needle occurs as a contiguous run of characters.\<close>

fun str_includes :: "string \<Rightarrow> string \<Rightarrow> bool" where
  "str_includes [] needle = (needle = [])"
| "str_includes (c # cs) needle = (prefix needle (c # cs) \<or> str_includes cs needle)"

definition dquote :: char where
  "dquote = CHR 0x22"

definition bslash :: char where
  "bslash = CHR 0x5C"

definition newline :: char where
  "newline = CHR 0x0A"

section \<open>The provider table\<close>

text \<open>
  \<open>hostMap\<close> is the object literal \<open>{ github: "github.com", bitbucket: "bitbucket.org" }\<close>
  read with \<open>hostMap[providerNormalized]\<close>. A property read on an object literal follows
  the prototype chain, so a key that names a member of \<open>Object.prototype\<close> yields that
  member, which is an object or a function and therefore truthy. \<open>Some s\<close> is a truthy
  value that a template literal renders as \<open>s\<close>; \<open>None\<close> is \<open>undefined\<close>.
\<close>

definition object_prototype :: "string \<Rightarrow> string option" where
  "object_prototype k =
     (if k = ''constructor'' then Some ''function Object() { [native code] }''
      else if k = ''__proto__'' then Some ''[object Object]''
      else if k = ''hasOwnProperty'' then Some ''function hasOwnProperty() { [native code] }''
      else if k = ''isPrototypeOf'' then Some ''function isPrototypeOf() { [native code] }''
      else if k = ''propertyIsEnumerable''
        then Some ''function propertyIsEnumerable() { [native code] }''
      else if k = ''toLocaleString'' then Some ''function toLocaleString() { [native code] }''
      else if k = ''toString'' then Some ''function toString() { [native code] }''
      else if k = ''valueOf'' then Some ''function valueOf() { [native code] }''
      else if k = ''__defineGetter__''
        then Some ''function __defineGetter__() { [native code] }''
      else if k = ''__defineSetter__''
        then Some ''function __defineSetter__() { [native code] }''
      else if k = ''__lookupGetter__''
        then Some ''function __lookupGetter__() { [native code] }''
      else if k = ''__lookupSetter__''
        then Some ''function __lookupSetter__() { [native code] }''
      else None)"

definition hostMap :: "string \<Rightarrow> string option" where
  "hostMap k =
     (if k = ''github'' then Some ''github.com''
      else if k = ''bitbucket'' then Some ''bitbucket.org''
      else object_prototype k)"

text \<open>Lines 21 to 23: the hostname looked up for a provider argument.\<close>

definition hostNameOf :: "string \<Rightarrow> string option" where
  "hostNameOf provider = hostMap (toLowerCase provider)"

section \<open>Paths\<close>

text \<open>
  \<open>path.join\<close> concatenates its non-empty arguments with the separator and normalises
  the result: empty and \<open>.\<close> segments vanish and a \<open>..\<close> segment removes the segment
  before it. \<open>normalizeSegments\<close> is the loop of Node's \<open>normalizeString\<close> over the
  segments of the path.
\<close>

fun splitBy :: "(char \<Rightarrow> bool) \<Rightarrow> string \<Rightarrow> string \<Rightarrow> string list" where
  "splitBy isSep cur [] = [cur]"
| "splitBy isSep cur (c # cs) =
     (if isSep c then cur # splitBy isSep [] cs else splitBy isSep (cur @ [c]) cs)"

fun normalizeSegments :: "bool \<Rightarrow> string list \<Rightarrow> string list \<Rightarrow> string list" where
  "normalizeSegments allowAboveRoot res [] = res"
| "normalizeSegments allowAboveRoot res (seg # segs) =
     (if seg = [] then normalizeSegments allowAboveRoot res segs
      else if seg = ''.'' then normalizeSegments allowAboveRoot res segs
      else if seg = ''..'' then
        (if res = [] then
           normalizeSegments allowAboveRoot (if allowAboveRoot then [''..''] else []) segs
         else if last res = ''..'' then
           normalizeSegments allowAboveRoot (if allowAboveRoot then res @ [''..''] else res) segs
         else normalizeSegments allowAboveRoot (butlast res) segs)
      else normalizeSegments allowAboveRoot (res @ [seg]) segs)"

fun joinWith :: "string \<Rightarrow> string list \<Rightarrow> string" where
  "joinWith sep [] = []"
| "joinWith sep [s] = s"
| "joinWith sep (s # t # ts) = s @ sep @ joinWith sep (t # ts)"

definition normalizeString :: "string \<Rightarrow> bool \<Rightarrow> string \<Rightarrow> (char \<Rightarrow> bool) \<Rightarrow> string" where
  "normalizeString path allowAboveRoot separator isSep =
     joinWith separator (normalizeSegments allowAboveRoot [] (splitBy isSep [] path))"

definition isPosixPathSeparator :: "char \<Rightarrow> bool" where
  "isPosixPathSeparator c = (c = CHR ''/'')"

definition isPathSeparator :: "char \<Rightarrow> bool" where
  "isPathSeparator c = (c = CHR ''/'' \<or> c = bslash)"

definition isWindowsDeviceRoot :: "char \<Rightarrow> bool" where
  "isWindowsDeviceRoot c =
     (let n = (of_char c :: nat) in (65 \<le> n \<and> n \<le> 90) \<or> (97 \<le> n \<and> n \<le> 122))"

definition posix_normalize :: "string \<Rightarrow> string" where
  "posix_normalize path =
     (if path = [] then ''.''
      else
        let isAbsolute = (hd path = CHR ''/'');
            trailingSeparator = (last path = CHR ''/'');
            p = normalizeString path (\<not> isAbsolute) ''/'' isPosixPathSeparator
        in if p = [] then (if isAbsolute then ''/'' else if trailingSeparator then ''./'' else ''.'')
           else (if isAbsolute then ''/'' else []) @ p @ (if trailingSeparator then ''/'' else []))"

definition posix_join :: "string \<Rightarrow> string \<Rightarrow> string" where
  "posix_join a b =
     (if a = [] then (if b = [] then ''.'' else posix_normalize b)
      else if b = [] then posix_normalize a
      else posix_normalize (a @ ''/'' @ b))"

text \<open>
  On Windows the program only joins onto a literal that starts with a drive root
  (the letter \<open>D\<close>, a colon and a backslash), so \<open>win32_normalize\<close> follows that
  branch of Node's function: the device and the root are kept, the rest is normalised
  with both separators recognised. A path of any other shape (UNC, drive-relative,
  relative) is not represented and is returned as it is.
\<close>

definition win32_normalize :: "string \<Rightarrow> string" where
  "win32_normalize path =
     (case path of
        d # c # s # rest \<Rightarrow>
          if isWindowsDeviceRoot d \<and> c = CHR '':'' \<and> isPathSeparator s then
            let tail = normalizeString rest False [bslash] isPathSeparator
            in [d, c, bslash] @ tail @
               (if tail = [] then [] else if isPathSeparator (last path) then [bslash] else [])
          else path
      | _ \<Rightarrow> path)"

definition win32_join :: "string \<Rightarrow> string \<Rightarrow> string" where
  "win32_join a b =
     (if a = [] then (if b = [] then ''.'' else win32_normalize b)
      else if b = [] then win32_normalize a
      else win32_normalize (a @ [bslash] @ b))"

section \<open>The environment and the file system\<close>

text \<open>
  A file system is a table from paths to nodes. A node is visible at a path when every
  proper ancestor of the path is a directory in the table (\<open>lookup\<close>); \<open>existsSync\<close>
  and the read and write calls all go through \<open>lookup\<close>.
\<close>

datatype node = Directory | RegularFile string nat

type_synonym fs = "string \<rightharpoonup> node"

datatype io_call = MkdirCall string | ReadCall string | WriteCall string | AppendCall string

text \<open>
  What the program takes from its surroundings:
  \<^item> \<open>platform\<close> is \<open>process.platform\<close>;
  \<^item> \<open>umask\<close> is the file mode creation mask of the process;
  \<^item> \<open>io_error call fs\<close> says that the operating system makes this call fail in this
    state for a reason that the table does not show (permissions, a read-only or full
    device); the call then throws and changes nothing;
  \<^item> \<open>sh command fs\<close> is what running the command line through the shell does: whether
    it exits with status 0, and the file system that it leaves. Nothing is assumed about
    it, so it covers whatever the shell makes of the characters of the alias.
\<close>

record env =
  platform :: string
  umask :: nat
  io_error :: "io_call \<Rightarrow> fs \<Rightarrow> bool"
  sh :: "string \<Rightarrow> fs \<Rightarrow> bool \<times> fs"

datatype error = MissingArguments | InvalidProvider | KeyGenerationFailed | FilesystemError

datatype fs_op =
    Mkdir string
  | Exec string
  | WriteFile string string nat
  | AppendFile string string

datatype outcome = Success | Failed error

fun exitCode :: "outcome \<Rightarrow> nat" where
  "exitCode Success = 0"
| "exitCode (Failed e) = 1"

record run =
  status :: outcome
  disk :: fs
  trace :: "fs_op list"

definition path_join :: "env \<Rightarrow> string \<Rightarrow> string \<Rightarrow> string" where
  "path_join env a b = (if platform env = ''win32'' then win32_join a b else posix_join a b)"

text \<open>
  The directories on the way to a path, the path itself last: for
  \<open>/nfs/ws/shared_ssh\<close> these are \<open>/nfs\<close>, \<open>/nfs/ws\<close> and \<open>/nfs/ws/shared_ssh\<close>. The
  root (or the drive root) is not listed.
\<close>

fun prefixesFrom :: "string \<Rightarrow> string \<Rightarrow> string list \<Rightarrow> string list" where
  "prefixesFrom sep cur [] = []"
| "prefixesFrom sep cur (s # ss) = (cur @ s) # prefixesFrom sep (cur @ s @ sep) ss"

definition posix_prefixes :: "string \<Rightarrow> string list" where
  "posix_prefixes path =
     prefixesFrom ''/''
       (case path of [] \<Rightarrow> [] | c # cs \<Rightarrow> if c = CHR ''/'' then ''/'' else [])
       (filter (\<lambda>s. s \<noteq> []) (splitBy isPosixPathSeparator [] path))"

definition win32_prefixes :: "string \<Rightarrow> string list" where
  "win32_prefixes path =
     (case path of
        d # c # s # rest \<Rightarrow>
          if isWindowsDeviceRoot d \<and> c = CHR '':'' \<and> isPathSeparator s then
            prefixesFrom [bslash] [d, c, bslash]
              (filter (\<lambda>s. s \<noteq> []) (splitBy isPathSeparator [] rest))
          else prefixesFrom [bslash] [] (filter (\<lambda>s. s \<noteq> []) (splitBy isPathSeparator [] path))
      | _ \<Rightarrow> prefixesFrom [bslash] [] (filter (\<lambda>s. s \<noteq> []) (splitBy isPathSeparator [] path)))"

definition pathPrefixes :: "env \<Rightarrow> string \<Rightarrow> string list" where
  "pathPrefixes env path =
     (if platform env = ''win32'' then win32_prefixes path else posix_prefixes path)"

definition ancestorsOK :: "env \<Rightarrow> fs \<Rightarrow> string \<Rightarrow> bool" where
  "ancestorsOK env fs p = list_all (\<lambda>q. fs q = Some Directory) (butlast (pathPrefixes env p))"

definition lookup :: "env \<Rightarrow> fs \<Rightarrow> string \<Rightarrow> node option" where
  "lookup env fs p = (if ancestorsOK env fs p then fs p else None)"

definition existsSync :: "env \<Rightarrow> fs \<Rightarrow> string \<Rightarrow> bool" where
  "existsSync env fs p = (case lookup env fs p of None \<Rightarrow> False | Some n \<Rightarrow> True)"

text \<open>
  \<open>mkdirSync\<close> with \<open>recursive: true\<close> creates the missing directories on the way to
  the path and the path itself. It throws when one of them is a regular file, or when the
  operating system refuses.
\<close>

definition isRegularFile :: "node option \<Rightarrow> bool" where
  "isRegularFile n = (case n of Some (RegularFile content m) \<Rightarrow> True | _ \<Rightarrow> False)"

definition withDirectories :: "env \<Rightarrow> fs \<Rightarrow> string \<Rightarrow> fs" where
  "withDirectories env fs p = foldl (\<lambda>f q. f(q \<mapsto> Directory)) fs (pathPrefixes env p)"

definition mkdirSync :: "env \<Rightarrow> fs \<Rightarrow> string \<Rightarrow> error + fs" where
  "mkdirSync env fs p =
     (if io_error env (MkdirCall p) fs then Inl FilesystemError
      else if list_ex (\<lambda>q. isRegularFile (fs q)) (pathPrefixes env p) then Inl FilesystemError
      else Inr (withDirectories env fs p))"

definition readFileSync :: "env \<Rightarrow> fs \<Rightarrow> string \<Rightarrow> error + string" where
  "readFileSync env fs p =
     (if io_error env (ReadCall p) fs then Inl FilesystemError
      else case lookup env fs p of
             Some (RegularFile content m) \<Rightarrow> Inr content
           | Some Directory \<Rightarrow> Inl FilesystemError
           | None \<Rightarrow> Inl FilesystemError)"

text \<open>
  A file that \<open>writeFileSync\<close> or \<open>appendFileSync\<close> creates gets the requested mode
  less the bits of the umask; the mode of an existing file stays. Creating a file needs
  its directory.
\<close>

definition applyUmask :: "nat \<Rightarrow> nat \<Rightarrow> nat" where
  "applyUmask u mode = mode AND (511 - (u AND 511))"

definition writeFileSync :: "env \<Rightarrow> fs \<Rightarrow> string \<Rightarrow> string \<Rightarrow> nat \<Rightarrow> error + fs" where
  "writeFileSync env fs p content mode =
     (if io_error env (WriteCall p) fs then Inl FilesystemError
      else case lookup env fs p of
             Some Directory \<Rightarrow> Inl FilesystemError
           | Some (RegularFile old m) \<Rightarrow> Inr (fs(p \<mapsto> RegularFile content m))
           | None \<Rightarrow>
               if ancestorsOK env fs p
               then Inr (fs(p \<mapsto> RegularFile content (applyUmask (umask env) mode)))
               else Inl FilesystemError)"

definition appendFileSync :: "env \<Rightarrow> fs \<Rightarrow> string \<Rightarrow> string \<Rightarrow> error + fs" where
  "appendFileSync env fs p content =
     (if io_error env (AppendCall p) fs then Inl FilesystemError
      else case lookup env fs p of
             Some Directory \<Rightarrow> Inl FilesystemError
           | Some (RegularFile old m) \<Rightarrow> Inr (fs(p \<mapsto> RegularFile (old @ content) m))
           | None \<Rightarrow>
               if ancestorsOK env fs p
               then Inr (fs(p \<mapsto> RegularFile content (applyUmask (umask env) 438)))
               else Inl FilesystemError)"

text \<open>
  Line 44: the command line that \<open>execSync\<close> hands to the shell. The first component
  of the result of \<open>execSync\<close> is \<open>False\<close> when it throws, which it does when the
  command does not exit with status 0; the second is the file system the command left.
\<close>

definition keygenCommand :: "string \<Rightarrow> string \<Rightarrow> string" where
  "keygenCommand privateKeyPath alias =
     ''ssh-keygen -t ed25519 -f '' @ [dquote] @ privateKeyPath @ [dquote] @
     '' -C '' @ [dquote] @ alias @ [dquote] @ '' -N '' @ [dquote, dquote]"

definition execSync :: "env \<Rightarrow> string \<Rightarrow> fs \<Rightarrow> bool \<times> fs" where
  "execSync env command fs = sh env command fs"

section \<open>The program\<close>

text \<open>The paths of lines 27 to 39.\<close>

definition baseDir :: "env \<Rightarrow> string" where
  "baseDir env =
     (if platform env = ''win32'' then ''D:'' @ [bslash] @ ''klarion6.0'' @ [bslash] @ ''ws''
      else ''/nfs/ws'')"

definition sharedSSHDir :: "env \<Rightarrow> string" where
  "sharedSSHDir env = path_join env (baseDir env) ''shared_ssh''"

definition keyName :: "string \<Rightarrow> string \<Rightarrow> string" where
  "keyName providerNormalized alias = ''id_ed25519_'' @ providerNormalized @ ''_'' @ alias"

definition privateKeyPath :: "env \<Rightarrow> string \<Rightarrow> string \<Rightarrow> string" where
  "privateKeyPath env providerNormalized alias =
     path_join env (sharedSSHDir env) (keyName providerNormalized alias)"

definition publicKeyPath :: "env \<Rightarrow> string \<Rightarrow> string \<Rightarrow> string" where
  "publicKeyPath env providerNormalized alias =
     privateKeyPath env providerNormalized alias @ ''.pub''"

definition configPath :: "env \<Rightarrow> string" where
  "configPath env = path_join env (sharedSSHDir env) ''config''"

definition knownHostsPath :: "env \<Rightarrow> string" where
  "knownHostsPath env = path_join env (sharedSSHDir env) ''known_hosts''"

definition trustedHosts :: "string list" where
  "trustedHosts =
     [''github.com ssh-ed25519 AAAAC3NzaC1lZDI1NTE5AAAAIOMqqnkVzrm0SdG6UOoqKLsabgH5C9okWi0dh2l9GKJl'',
      ''bitbucket.org ssh-rsa AAAAB3NzaC1yc2EAAAADAQABAAABgQDQeJzhupRu0u0cdegZIa8e86EG2qOCsIsD1Xw0xSeiPDlCr7kq97NLmMbpKTX6Esc30NuoqEEHCuc7yWtwp8dI76EEEB1VqY9QJq6vk+aySyboD5QF61I/1WeTwu+deCbgKMGbUijeXhtfbxSxm6JwGrXrhBdofTsbKRUsrN1WoNgUa8uqN1Vx6WAJw1JHPhglEGGHea6QICwJOAr/6mrui/oB7pkaWKHj3z7d1IC4KWLtY47elvjbaTlkN04Kc/5LFEirorGYVbt15kAUlqGM65pk6ZBxtaO3+30LVlORZkxOh+LKL/BvbZ/iRNhItLqNyieoQj/uh/7Iv4uyH/cV/0b4WDSd3DptigWq84lJubb9t/DnZlrJazxyDCulTmKdOR7vs9gMTo+uoIrPSb8ScTtvw65+odKAlBj59dhnVp9zd7QUojOpXlL62Aw56U4oO+FALuevvMjiWeavKhJqlR7i5n9srYcrNV7ttmDw7kf/97P5zauIhxcjX+xHv4M='']"

text \<open>\<open>trustedHosts.join("\n") + "\n"\<close>, written with mode 0600 (384).\<close>

definition knownHostsContent :: string where
  "knownHostsContent = joinWith [newline] trustedHosts @ [newline]"

definition baseBlock :: "string \<Rightarrow> string \<Rightarrow> string \<Rightarrow> string" where
  "baseBlock host key known =
     [newline] @ ''Host '' @ host @
     [newline] @ ''    HostName '' @ host @
     [newline] @ ''    User git'' @
     [newline] @ ''    IdentityFile '' @ key @
     [newline] @ ''    IdentitiesOnly yes'' @
     [newline] @ ''    UserKnownHostsFile '' @ known @
     [newline] @ ''    GlobalKnownHostsFile '' @ known @ [newline]"

definition aliasBlock :: "string \<Rightarrow> string \<Rightarrow> string \<Rightarrow> string \<Rightarrow> string" where
  "aliasBlock host alias key known =
     [newline] @ ''Host '' @ host @ ''-'' @ alias @
     [newline] @ ''    HostName '' @ host @
     [newline] @ ''    User git'' @
     [newline] @ ''    IdentityFile '' @ key @
     [newline] @ ''    IdentitiesOnly yes'' @
     [newline] @ ''    UserKnownHostsFile '' @ known @
     [newline] @ ''    GlobalKnownHostsFile '' @ known @ [newline]"

text \<open>
  The state that the steps pass on is the file system together with the operations done
  so far. A step that throws returns \<open>Inl\<close> with the error and the state it leaves; the
  \<open>catch\<close> block turns that into exit status 1. Console output is not represented.
\<close>

type_synonym world = "fs \<times> fs_op list"

fun andThen :: "(error \<times> world) + 'a \<Rightarrow> ('a \<Rightarrow> (error \<times> world) + 'b) \<Rightarrow> (error \<times> world) + 'b" where
  "andThen (Inl ew) f = Inl ew"
| "andThen (Inr a) f = f a"

fun finish :: "(error \<times> world) + world \<Rightarrow> run" where
  "finish (Inl (e, (fs, t))) = \<lparr>status = Failed e, disk = fs, trace = t\<rparr>"
| "finish (Inr (fs, t)) = \<lparr>status = Success, disk = fs, trace = t\<rparr>"

text \<open>Lines 30 to 33.\<close>

fun createSharedSSHDirIfMissing :: "env \<Rightarrow> world \<Rightarrow> (error \<times> world) + world" where
  "createSharedSSHDirIfMissing env (fs, t) =
     (if existsSync env fs (sharedSSHDir env) then Inr (fs, t)
      else (case mkdirSync env fs (sharedSSHDir env) of
              Inl e \<Rightarrow> Inl (e, (fs, t))
            | Inr fs' \<Rightarrow> Inr (fs', t @ [Mkdir (sharedSSHDir env)])))"

text \<open>Lines 42 to 45: generate the SSH key if it does not exist.\<close>

fun generateKeyIfNotExists :: "env \<Rightarrow> string \<Rightarrow> string \<Rightarrow> world \<Rightarrow> (error \<times> world) + world" where
  "generateKeyIfNotExists env providerNormalized alias (fs, t) =
     (let key = privateKeyPath env providerNormalized alias;
          command = keygenCommand key alias
      in if existsSync env fs key then Inr (fs, t)
         else (case execSync env command fs of
                 (True, fs') \<Rightarrow> Inr (fs', t @ [Exec command])
               | (False, fs') \<Rightarrow> Inl (KeyGenerationFailed, (fs', t @ [Exec command]))))"

text \<open>Lines 54 to 57: create known_hosts if missing.\<close>

fun createKnownHostsIfMissing :: "env \<Rightarrow> world \<Rightarrow> (error \<times> world) + world" where
  "createKnownHostsIfMissing env (fs, t) =
     (if existsSync env fs (knownHostsPath env) then Inr (fs, t)
      else (case writeFileSync env fs (knownHostsPath env) knownHostsContent 384 of
              Inl e \<Rightarrow> Inl (e, (fs, t))
            | Inr fs' \<Rightarrow> Inr (fs', t @ [WriteFile (knownHostsPath env) knownHostsContent 384])))"

text \<open>Lines 81 and 82.\<close>

fun readConfigContent :: "env \<Rightarrow> world \<Rightarrow> (error \<times> world) + string" where
  "readConfigContent env (fs, t) =
     (if existsSync env fs (configPath env) then
        (case readFileSync env fs (configPath env) of
           Inl e \<Rightarrow> Inl (e, (fs, t))
         | Inr content \<Rightarrow> Inr content)
      else Inr [])"

text \<open>Lines 85 to 88 and 91 to 94: append \<open>block\<close> unless the content read includes \<open>needle\<close>.\<close>

fun appendIfMissing :: "env \<Rightarrow> string \<Rightarrow> string \<Rightarrow> string \<Rightarrow> world \<Rightarrow> (error \<times> world) + world" where
  "appendIfMissing env configContent needle block (fs, t) =
     (if str_includes configContent needle then Inr (fs, t)
      else (case appendFileSync env fs (configPath env) block of
              Inl e \<Rightarrow> Inl (e, (fs, t))
            | Inr fs' \<Rightarrow> Inr (fs', t @ [AppendFile (configPath env) block])))"

text \<open>
  The steps in their order: up to the key (lines 30 to 45), then known_hosts (lines 54
  to 57), then the config file (lines 81 to 94), where both substring tests are made on
  the content read on line 82.
\<close>

definition stepsBeforeKnownHosts :: "env \<Rightarrow> string \<Rightarrow> string \<Rightarrow> fs \<Rightarrow> (error \<times> world) + world" where
  "stepsBeforeKnownHosts env providerNormalized alias fs =
     andThen (createSharedSSHDirIfMissing env (fs, []))
       (generateKeyIfNotExists env providerNormalized alias)"

definition stepsBeforeConfig :: "env \<Rightarrow> string \<Rightarrow> string \<Rightarrow> fs \<Rightarrow> (error \<times> world) + world" where
  "stepsBeforeConfig env providerNormalized alias fs =
     andThen (stepsBeforeKnownHosts env providerNormalized alias fs)
       (createKnownHostsIfMissing env)"

definition updateConfig ::
  "env \<Rightarrow> string \<Rightarrow> string \<Rightarrow> string \<Rightarrow> string \<Rightarrow> world \<Rightarrow> (error \<times> world) + world" where
  "updateConfig env host alias key known w =
     andThen (readConfigContent env w)
       (\<lambda>configContent.
          andThen (appendIfMissing env configContent (''Host '' @ host)
                     (baseBlock host key known) w)
            (appendIfMissing env configContent (''Host '' @ host @ ''-'' @ alias)
               (aliasBlock host alias key known)))"

definition generateSharedSSHKey :: "env \<Rightarrow> string option \<Rightarrow> string option \<Rightarrow> fs \<Rightarrow> run" where
  "generateSharedSSHKey env aliasArg providerArg fs =
     (case (aliasArg, providerArg) of
        (Some alias, Some provider) \<Rightarrow>
          if alias = [] \<or> provider = [] then
            \<lparr>status = Failed MissingArguments, disk = fs, trace = []\<rparr>
          else
            let providerNormalized = toLowerCase provider in
            (case hostMap providerNormalized of
               None \<Rightarrow> \<lparr>status = Failed InvalidProvider, disk = fs, trace = []\<rparr>
             | Some host \<Rightarrow>
                 finish
                   (andThen (stepsBeforeConfig env providerNormalized alias fs)
                      (updateConfig env host alias
                         (privateKeyPath env providerNormalized alias) (knownHostsPath env))))
      | _ \<Rightarrow> \<lparr>status = Failed MissingArguments, disk = fs, trace = []\<rparr>)"

text \<open>
  Line 109 and 110: \<open>argv\<close> is \<open>process.argv\<close>, whose first two entries are the
  interpreter and the script; an index past the end reads \<open>undefined\<close>.
\<close>

definition argAt :: "string list \<Rightarrow> nat \<Rightarrow> string option" where
  "argAt argv i = (if i < length argv then Some (argv ! i) else None)"

definition main :: "env \<Rightarrow> string list \<Rightarrow> fs \<Rightarrow> run" where
  "main env argv fs = generateSharedSSHKey env (argAt argv 2) (argAt argv 3) fs"

section \<open>What a run meets on its way\<close>

text \<open>
  Three observations of a run, each \<open>None\<close> when the run does not get that far:
  whether the key generation command, if it is launched, exits with status 0; the node
  at the known_hosts path when the known_hosts step starts; the node at the config path
  when the config file is read.
\<close>

definition keygenExit :: "env \<Rightarrow> string \<Rightarrow> string \<Rightarrow> fs \<Rightarrow> bool option" where
  "keygenExit env providerNormalized alias fs =
     (case createSharedSSHDirIfMissing env (fs, []) of
        Inl ew \<Rightarrow> None
      | Inr (fs1, t1) \<Rightarrow>
          if existsSync env fs1 (privateKeyPath env providerNormalized alias) then None
          else Some (fst (execSync env
                 (keygenCommand (privateKeyPath env providerNormalized alias) alias) fs1)))"


definition configAtRead :: "env \<Rightarrow> string \<Rightarrow> string \<Rightarrow> fs \<Rightarrow> node option option" where
  "configAtRead env providerNormalized alias fs =
     (case stepsBeforeConfig env providerNormalized alias fs of
        Inl ew \<Rightarrow> None
      | Inr (fs3, t3) \<Rightarrow> Some (lookup env fs3 (configPath env)))"

text \<open>The text of a node, empty when there is no file, as \<open>configContent\<close> on line 81.\<close>

definition contentOrEmpty :: "node option \<Rightarrow> string" where
  "contentOrEmpty n = (case n of Some (RegularFile content m) \<Rightarrow> content | _ \<Rightarrow> [])"

section \<open>Reading a config text\<close>

text \<open>
  In the ssh client configuration a stanza starts at a line whose keyword is \<open>Host\<close>.
  The keyword of a line is its first word after leading blanks; it ends at a blank or at
  an equals sign, may be written in double quotes, and is matched without regard to
  case. \<open>hostLines\<close> lists the header lines in the order of the text; the claims about
  stanzas are stated with it. It is not part of the program, which only searches for
  substrings.
\<close>

definition splitLines :: "string \<Rightarrow> string list" where
  "splitLines s = splitBy (\<lambda>c. c = newline) [] s"

definition isBlank :: "char \<Rightarrow> bool" where
  "isBlank c = (c = CHR '' '' \<or> c = CHR 0x09 \<or> c = CHR 0x0D)"

definition keywordOf :: "string \<Rightarrow> string" where
  "keywordOf line =
     (case dropWhile isBlank line of
        [] \<Rightarrow> []
      | c # cs \<Rightarrow>
          if c = dquote then takeWhile (\<lambda>x. x \<noteq> dquote) cs
          else takeWhile (\<lambda>x. \<not> isBlank x \<and> x \<noteq> CHR ''='') (c # cs))"

definition isHostLine :: "string \<Rightarrow> bool" where
  "isHostLine line = (toLowerCase (keywordOf line) = ''host'')"

definition hostLines :: "string \<Rightarrow> string list" where
  "hostLines s = filter isHostLine (splitLines s)"

section \<open>Concrete environments\<close>

text \<open>
  A stand-in for \<open>ssh-keygen\<close> writing to a target path: it gives up with a non-zero
  status when the target exists (it asks before overwriting and gets no yes), and writes
  the key pair otherwise. \<open>shellTarget\<close> is the argument of \<open>-f\<close> as the shell passes
  it on: the text between the first two double quotes of the command line, in which a
  dollar sign followed by the name of an unset variable expands to nothing. Other
  expansions of the shell are not represented here.
\<close>

definition keygenAt :: "string \<Rightarrow> fs \<Rightarrow> bool \<times> fs" where
  "keygenAt target fs =
     (case fs target of
        Some n \<Rightarrow> (False, fs)
      | None \<Rightarrow> (True, fs(target \<mapsto> RegularFile ''PRIVATE'' 384,
                           target @ ''.pub'' \<mapsto> RegularFile ''PUBLIC'' 420)))"

definition isNameChar :: "char \<Rightarrow> bool" where
  "isNameChar c =
     (let n = (of_char c :: nat)
      in (65 \<le> n \<and> n \<le> 90) \<or> (97 \<le> n \<and> n \<le> 122) \<or> (48 \<le> n \<and> n \<le> 57) \<or> n = 95)"

fun dropUnsetVariables :: "bool \<Rightarrow> string \<Rightarrow> string" where
  "dropUnsetVariables inName [] = []"
| "dropUnsetVariables inName (c # cs) =
     (if inName \<and> isNameChar c then dropUnsetVariables True cs
      else if c = CHR ''$'' \<and> (case cs of [] \<Rightarrow> False | d # ds \<Rightarrow> isNameChar d)
        then dropUnsetVariables True cs
      else c # dropUnsetVariables False cs)"

definition shellTarget :: "string \<Rightarrow> string" where
  "shellTarget command =
     (case splitBy (\<lambda>c. c = dquote) [] command of
        before # target # rest \<Rightarrow> dropUnsetVariables False target
      | _ \<Rightarrow> [])"

text \<open>
  A Linux machine with umask 022 on which every file system call is allowed and the
  key generator works; the same machine with a key generator that fails at once; with a
  key generator that writes the private key and then fails at the public key when the
  path of the public key is a directory; with a known_hosts file that cannot be written;
  and with umask 0400.
\<close>

definition linux_ok :: env where
  "linux_ok = \<lparr>platform = ''linux'', umask = 18, io_error = (\<lambda>call fs. False),
               sh = (\<lambda>command fs. keygenAt (shellTarget command) fs)\<rparr>"

definition linux_failing :: env where
  "linux_failing = \<lparr>platform = ''linux'', umask = 18, io_error = (\<lambda>call fs. False),
                    sh = (\<lambda>command fs. (False, fs))\<rparr>"

definition linux_pub_blocked :: env where
  "linux_pub_blocked =
     \<lparr>platform = ''linux'', umask = 18, io_error = (\<lambda>call fs. False),
      sh = (\<lambda>command fs.
              if fs (shellTarget command @ ''.pub'') = Some Directory
              then (False, fs(shellTarget command \<mapsto> RegularFile ''PRIVATE'' 384))
              else keygenAt (shellTarget command) fs)\<rparr>"



text \<open>
  An alias that makes the shell write a line into the config file: the command
  substitution runs \<open>echo\<close> with its output sent to the config file and expands to
  nothing, so that \<open>ssh-keygen\<close> gets the key name with an empty alias. \<open>linux_echo\<close>
  is the machine on which the command line of that alias does this, and which treats
  every other command line as \<open>linux_ok\<close> does.
\<close>

definition echoAlias :: "string \<Rightarrow> string" where
  "echoAlias line = ''$(echo '' @ line @ '' > /nfs/ws/shared_ssh/config)''"

definition linux_echo :: "string \<Rightarrow> env" where
  "linux_echo line =
     \<lparr>platform = ''linux'', umask = 18, io_error = (\<lambda>call fs. False),
      sh = (\<lambda>command fs.
              if command = keygenCommand (''/nfs/ws/shared_ssh/id_ed25519_github_'' @
                                           echoAlias line) (echoAlias line)
              then keygenAt ''/nfs/ws/shared_ssh/id_ed25519_github_''
                     (fs(''/nfs/ws/shared_ssh/config'' \<mapsto> RegularFile (line @ [newline]) 420))
              else keygenAt (shellTarget command) fs)\<rparr>"

text \<open>
  The well-formed start states used below: the shared directory alone, and the shared
  directory with a given config file.
\<close>

definition sharedDirOnly :: fs where
  "sharedDirOnly = [''/nfs'' \<mapsto> Directory, ''/nfs/ws'' \<mapsto> Directory,
                    ''/nfs/ws/shared_ssh'' \<mapsto> Directory]"




definition two_line_alias :: string where
  "two_line_alias = ''a'' @ [newline] @ ''Host b''"

section \<open>Facts about strings and paths\<close>

lemma toLowerCase_char_idem: "toLowerCase_char (toLowerCase_char c) = toLowerCase_char c"
  by (auto simp: toLowerCase_char_def Let_def)

lemma toLowerCase_idem: "toLowerCase (toLowerCase s) = toLowerCase s"
  by (simp add: toLowerCase_def toLowerCase_char_idem)

lemma toLowerCase_Nil_iff: "toLowerCase s = [] \<longleftrightarrow> s = []"
  by (simp add: toLowerCase_def)

lemma str_includes_sublist: "str_includes s n = sublist n s"
  by (induction s) (auto simp: sublist_Cons_right)

lemma posix_paths:
  "posix_join ''/nfs/ws'' ''shared_ssh'' = ''/nfs/ws/shared_ssh''"
  "posix_join ''/nfs/ws/shared_ssh'' ''config'' = ''/nfs/ws/shared_ssh/config''"
  "posix_join ''/nfs/ws/shared_ssh'' ''known_hosts'' = ''/nfs/ws/shared_ssh/known_hosts''"
  by code_simp+

lemma win32_paths:
  "win32_join (''D:'' @ [bslash] @ ''klarion6.0'' @ [bslash] @ ''ws'') ''shared_ssh''
     = ''D:'' @ [bslash] @ ''klarion6.0'' @ [bslash] @ ''ws'' @ [bslash] @ ''shared_ssh''"
  "win32_join (''D:'' @ [bslash] @ ''klarion6.0'' @ [bslash] @ ''ws'' @ [bslash] @ ''shared_ssh'')
     ''config''
     = ''D:'' @ [bslash] @ ''klarion6.0'' @ [bslash] @ ''ws'' @ [bslash] @ ''shared_ssh'' @
       [bslash] @ ''config''"
  "win32_join (''D:'' @ [bslash] @ ''klarion6.0'' @ [bslash] @ ''ws'' @ [bslash] @ ''shared_ssh'')
     ''known_hosts''
     = ''D:'' @ [bslash] @ ''klarion6.0'' @ [bslash] @ ''ws'' @ [bslash] @ ''shared_ssh'' @
       [bslash] @ ''known_hosts''"
  by code_simp+

lemma sharedSSHDir_eq:
  "sharedSSHDir env =
     (if platform env = ''win32''
      then ''D:'' @ [bslash] @ ''klarion6.0'' @ [bslash] @ ''ws'' @ [bslash] @ ''shared_ssh''
      else ''/nfs/ws/shared_ssh'')"
  unfolding sharedSSHDir_def baseDir_def path_join_def
  by (cases "platform env = ''win32''")
     (simp_all only: posix_paths win32_paths if_P if_not_P simp_thms if_True if_False)

lemma configPath_eq:
  "configPath env =
     (if platform env = ''win32''
      then ''D:'' @ [bslash] @ ''klarion6.0'' @ [bslash] @ ''ws'' @ [bslash] @ ''shared_ssh'' @
           [bslash] @ ''config''
      else ''/nfs/ws/shared_ssh/config'')"
  unfolding configPath_def sharedSSHDir_eq path_join_def
  by (cases "platform env = ''win32''")
     (simp_all only: posix_paths win32_paths if_P if_not_P simp_thms if_True if_False)

lemma knownHostsPath_eq:
  "knownHostsPath env =
     (if platform env = ''win32''
      then ''D:'' @ [bslash] @ ''klarion6.0'' @ [bslash] @ ''ws'' @ [bslash] @ ''shared_ssh'' @
           [bslash] @ ''known_hosts''
      else ''/nfs/ws/shared_ssh/known_hosts'')"
  unfolding knownHostsPath_def sharedSSHDir_eq path_join_def
  by (cases "platform env = ''win32''")
     (simp_all only: posix_paths win32_paths if_P if_not_P simp_thms if_True if_False)

text \<open>The directories on the way to the three fixed paths.\<close>

lemma posix_prefixes_fixed:
  "posix_prefixes ''/nfs/ws/shared_ssh'' = [''/nfs'', ''/nfs/ws'', ''/nfs/ws/shared_ssh'']"
  "posix_prefixes ''/nfs/ws/shared_ssh/config'' =
     [''/nfs'', ''/nfs/ws'', ''/nfs/ws/shared_ssh''] @ [''/nfs/ws/shared_ssh/config'']"
  "posix_prefixes ''/nfs/ws/shared_ssh/known_hosts'' =
     [''/nfs'', ''/nfs/ws'', ''/nfs/ws/shared_ssh''] @ [''/nfs/ws/shared_ssh/known_hosts'']"
  by code_simp+

lemma win32_prefixes_fixed:
  "win32_prefixes
     (''D:'' @ [bslash] @ ''klarion6.0'' @ [bslash] @ ''ws'' @ [bslash] @ ''shared_ssh'') =
     [''D:'' @ [bslash] @ ''klarion6.0'',
      ''D:'' @ [bslash] @ ''klarion6.0'' @ [bslash] @ ''ws'',
      ''D:'' @ [bslash] @ ''klarion6.0'' @ [bslash] @ ''ws'' @ [bslash] @ ''shared_ssh'']"
  "win32_prefixes
     (''D:'' @ [bslash] @ ''klarion6.0'' @ [bslash] @ ''ws'' @ [bslash] @ ''shared_ssh'' @
      [bslash] @ ''config'') =
     [''D:'' @ [bslash] @ ''klarion6.0'',
      ''D:'' @ [bslash] @ ''klarion6.0'' @ [bslash] @ ''ws'',
      ''D:'' @ [bslash] @ ''klarion6.0'' @ [bslash] @ ''ws'' @ [bslash] @ ''shared_ssh''] @
     [''D:'' @ [bslash] @ ''klarion6.0'' @ [bslash] @ ''ws'' @ [bslash] @ ''shared_ssh'' @
      [bslash] @ ''config'']"
  "win32_prefixes
     (''D:'' @ [bslash] @ ''klarion6.0'' @ [bslash] @ ''ws'' @ [bslash] @ ''shared_ssh'' @
      [bslash] @ ''known_hosts'') =
     [''D:'' @ [bslash] @ ''klarion6.0'',
      ''D:'' @ [bslash] @ ''klarion6.0'' @ [bslash] @ ''ws'',
      ''D:'' @ [bslash] @ ''klarion6.0'' @ [bslash] @ ''ws'' @ [bslash] @ ''shared_ssh''] @
     [''D:'' @ [bslash] @ ''klarion6.0'' @ [bslash] @ ''ws'' @ [bslash] @ ''shared_ssh'' @
      [bslash] @ ''known_hosts'']"
  by code_simp+

lemma prefixes_dir:
  "pathPrefixes env (sharedSSHDir env) =
     (if platform env = ''win32''
      then [''D:'' @ [bslash] @ ''klarion6.0'',
            ''D:'' @ [bslash] @ ''klarion6.0'' @ [bslash] @ ''ws'',
            ''D:'' @ [bslash] @ ''klarion6.0'' @ [bslash] @ ''ws'' @ [bslash] @ ''shared_ssh'']
      else [''/nfs'', ''/nfs/ws'', ''/nfs/ws/shared_ssh''])"
  unfolding pathPrefixes_def sharedSSHDir_eq
  by (cases "platform env = ''win32''")
     (simp_all only: posix_prefixes_fixed win32_prefixes_fixed if_P if_not_P simp_thms
        if_True if_False)

lemma prefixes_config:
  "pathPrefixes env (configPath env) = pathPrefixes env (sharedSSHDir env) @ [configPath env]"
  unfolding prefixes_dir unfolding pathPrefixes_def configPath_eq
  by (cases "platform env = ''win32''")
     (simp_all only: posix_prefixes_fixed win32_prefixes_fixed if_P if_not_P simp_thms
        if_True if_False)

lemma prefixes_known:
  "pathPrefixes env (knownHostsPath env) =
     pathPrefixes env (sharedSSHDir env) @ [knownHostsPath env]"
  unfolding prefixes_dir unfolding pathPrefixes_def knownHostsPath_eq
  by (cases "platform env = ''win32''")
     (simp_all only: posix_prefixes_fixed win32_prefixes_fixed if_P if_not_P simp_thms
        if_True if_False)

lemma prefixes_dir_last:
  "pathPrefixes env (sharedSSHDir env) \<noteq> []"
  "last (pathPrefixes env (sharedSSHDir env)) = sharedSSHDir env"
  unfolding prefixes_dir by (simp_all add: sharedSSHDir_eq)

lemma fixed_not_on_the_way:
  "configPath env \<notin> set (pathPrefixes env (sharedSSHDir env))"
  "knownHostsPath env \<notin> set (pathPrefixes env (sharedSSHDir env))"
  "configPath env \<noteq> knownHostsPath env"
  "knownHostsPath env \<noteq> configPath env"
  unfolding prefixes_dir by (simp_all add: configPath_eq knownHostsPath_eq)

section \<open>Visibility of the fixed paths\<close>

lemma ancestorsOK_fixed:
  "ancestorsOK env fs (configPath env) =
     list_all (\<lambda>q. fs q = Some Directory) (pathPrefixes env (sharedSSHDir env))"
  "ancestorsOK env fs (knownHostsPath env) =
     list_all (\<lambda>q. fs q = Some Directory) (pathPrefixes env (sharedSSHDir env))"
  by (simp_all add: ancestorsOK_def prefixes_config prefixes_known)

lemma dirs_upd:
  assumes "x \<notin> set (pathPrefixes env (sharedSSHDir env))"
  shows "list_all (\<lambda>q. (fs(x \<mapsto> n)) q = Some Directory) (pathPrefixes env (sharedSSHDir env)) =
         list_all (\<lambda>q. fs q = Some Directory) (pathPrefixes env (sharedSSHDir env))"
  using assms by (auto simp: list_all_iff)

lemma ancestorsOK_upd:
  "ancestorsOK env (fs(configPath env \<mapsto> n)) (configPath env) = ancestorsOK env fs (configPath env)"
  "ancestorsOK env (fs(configPath env \<mapsto> n)) (knownHostsPath env) =
     ancestorsOK env fs (knownHostsPath env)"
  "ancestorsOK env (fs(knownHostsPath env \<mapsto> n)) (configPath env) =
     ancestorsOK env fs (configPath env)"
  "ancestorsOK env (fs(knownHostsPath env \<mapsto> n)) (knownHostsPath env) =
     ancestorsOK env fs (knownHostsPath env)"
  by (simp_all only: ancestorsOK_fixed dirs_upd[OF fixed_not_on_the_way(1)]
        dirs_upd[OF fixed_not_on_the_way(2)])

lemma lookup_upd:
  "lookup env (fs(configPath env \<mapsto> n)) (knownHostsPath env) = lookup env fs (knownHostsPath env)"
  "lookup env (fs(knownHostsPath env \<mapsto> n)) (configPath env) = lookup env fs (configPath env)"
  "lookup env (fs(configPath env \<mapsto> n)) (configPath env) =
     (if ancestorsOK env fs (configPath env) then Some n else None)"
  "lookup env (fs(knownHostsPath env \<mapsto> n)) (knownHostsPath env) =
     (if ancestorsOK env fs (knownHostsPath env) then Some n else None)"
  by (simp_all add: lookup_def ancestorsOK_upd fixed_not_on_the_way)

lemma lookup_raw: "lookup env fs p = Some n \<Longrightarrow> fs p = Some n"
  by (simp add: lookup_def split: if_splits)

lemma lookup_ancestorsOK: "lookup env fs p = Some n \<Longrightarrow> ancestorsOK env fs p"
  by (simp add: lookup_def split: if_splits)

lemma existsSync_iff: "existsSync env fs p \<longleftrightarrow> lookup env fs p \<noteq> None"
  by (simp add: existsSync_def split: option.splits)

text \<open>Where known_hosts is visible, the shared directory is.\<close>

lemma dir_visible:
  assumes "ancestorsOK env fs (knownHostsPath env)"
  shows "lookup env fs (sharedSSHDir env) = Some Directory"
proof -
  let ?D = "pathPrefixes env (sharedSSHDir env)"
  from assms have a: "\<forall>q \<in> set ?D. fs q = Some Directory"
    by (simp add: ancestorsOK_fixed list_all_iff)
  have "sharedSSHDir env \<in> set ?D"
    using prefixes_dir_last[of env] last_in_set by metis
  with a have "fs (sharedSSHDir env) = Some Directory" by blast
  moreover have "set (butlast ?D) \<subseteq> set ?D" by (auto dest: in_set_butlastD)
  with a have "ancestorsOK env fs (sharedSSHDir env)"
    by (auto simp: ancestorsOK_def list_all_iff)
  ultimately show ?thesis by (simp add: lookup_def)
qed

section \<open>The steps of a run\<close>

lemma run_unfold:
  assumes "a \<noteq> []" "p \<noteq> []" "hostMap (toLowerCase p) = Some host"
  shows "generateSharedSSHKey env (Some a) (Some p) fs =
           finish (andThen (stepsBeforeConfig env (toLowerCase p) a fs)
                     (updateConfig env host a (privateKeyPath env (toLowerCase p) a)
                        (knownHostsPath env)))"
  using assms by (simp add: generateSharedSSHKey_def Let_def)

lemma run_reaches_steps:
  assumes "status (generateSharedSSHKey env aliasArg providerArg fs) \<noteq> Failed MissingArguments"
    and "status (generateSharedSSHKey env aliasArg providerArg fs) \<noteq> Failed InvalidProvider"
  shows "\<exists>a p host. aliasArg = Some a \<and> providerArg = Some p \<and>
    a \<noteq> [] \<and> p \<noteq> [] \<and> hostMap (toLowerCase p) = Some host"
  using assms
  by (auto simp: generateSharedSSHKey_def Let_def split: if_splits option.splits)

lemma createSharedSSHDir_eq:
  "createSharedSSHDirIfMissing env (fs, []) =
     (if existsSync env fs (sharedSSHDir env) then Inr (fs, [])
      else if io_error env (MkdirCall (sharedSSHDir env)) fs \<or>
              list_ex (\<lambda>q. isRegularFile (fs q)) (pathPrefixes env (sharedSSHDir env))
        then Inl (FilesystemError, (fs, []))
      else Inr (withDirectories env fs (sharedSSHDir env), [Mkdir (sharedSSHDir env)]))"
  by (simp add: mkdirSync_def)

lemma generateKey_eq:
  "generateKeyIfNotExists env pn a (fs, t) =
     (if existsSync env fs (privateKeyPath env pn a) then Inr (fs, t)
      else if fst (execSync env (keygenCommand (privateKeyPath env pn a) a) fs)
        then Inr (snd (execSync env (keygenCommand (privateKeyPath env pn a) a) fs),
                  t @ [Exec (keygenCommand (privateKeyPath env pn a) a)])
      else Inl (KeyGenerationFailed,
                (snd (execSync env (keygenCommand (privateKeyPath env pn a) a) fs),
                 t @ [Exec (keygenCommand (privateKeyPath env pn a) a)])))"
  by (cases "execSync env (keygenCommand (privateKeyPath env pn a) a) fs")
     (auto simp: Let_def)

lemma createKnownHosts_eq:
  "createKnownHostsIfMissing env (fs, t) =
     (if existsSync env fs (knownHostsPath env) then Inr (fs, t)
      else if io_error env (WriteCall (knownHostsPath env)) fs \<or>
              \<not> ancestorsOK env fs (knownHostsPath env)
        then Inl (FilesystemError, (fs, t))
      else Inr (fs(knownHostsPath env \<mapsto>
                     RegularFile knownHostsContent (applyUmask (umask env) 384)),
                t @ [WriteFile (knownHostsPath env) knownHostsContent 384]))"
  by (auto simp: existsSync_def writeFileSync_def split: option.splits)

text \<open>The config steps on a state in which the config file is visible with the base needle.\<close>

lemma updateConfig_base_present:
  assumes f: "lookup env fs (configPath env) = Some (RegularFile cfg m)"
    and i: "str_includes cfg (''Host '' @ host)"
  shows "updateConfig env host a key known (fs, t) =
     (if io_error env (ReadCall (configPath env)) fs then Inl (FilesystemError, (fs, t))
      else if str_includes cfg (''Host '' @ host @ ''-'' @ a) then Inr (fs, t)
      else if io_error env (AppendCall (configPath env)) fs then Inl (FilesystemError, (fs, t))
      else Inr (fs(configPath env \<mapsto> RegularFile (cfg @ aliasBlock host a key known) m),
                t @ [AppendFile (configPath env) (aliasBlock host a key known)]))"
  using f i
  by (auto simp: updateConfig_def existsSync_def readFileSync_def appendFileSync_def)

text \<open>The config steps when they succeed.\<close>

lemma updateConfig_success:
  assumes "updateConfig env host a key known (fs, t) = Inr (fs', t')"
  shows "\<exists>m'. fs' = fs(configPath env \<mapsto>
                  RegularFile
                    (contentOrEmpty (lookup env fs (configPath env)) @
                     (if str_includes (contentOrEmpty (lookup env fs (configPath env)))
                           (''Host '' @ host)
                      then [] else baseBlock host key known) @
                     (if str_includes (contentOrEmpty (lookup env fs (configPath env)))
                           (''Host '' @ host @ ''-'' @ a)
                      then [] else aliasBlock host a key known)) m') \<and>
              ancestorsOK env fs (configPath env)"
proof (cases "lookup env fs (configPath env)")
  case None
  with assms show ?thesis
    by (auto simp: updateConfig_def existsSync_def readFileSync_def appendFileSync_def
          contentOrEmpty_def lookup_upd
          split: if_splits)
next
  case (Some n)
  then have ok: "ancestorsOK env fs (configPath env)" by (rule lookup_ancestorsOK)
  show ?thesis
  proof (cases n)
    case Directory
    with Some assms show ?thesis
      by (auto simp: updateConfig_def existsSync_def readFileSync_def split: if_splits)
  next
    case (RegularFile cfg m)
    with Some have f: "lookup env fs (configPath env) = Some (RegularFile cfg m)" by simp
    then have raw: "fs (configPath env) = Some (RegularFile cfg m)" by (rule lookup_raw)
    then have triv: "fs(configPath env \<mapsto> RegularFile cfg m) = fs" by (rule map_upd_triv)
    from assms f ok triv show ?thesis
      by (intro exI[of _ m])
         (auto simp: updateConfig_def existsSync_def readFileSync_def appendFileSync_def
            contentOrEmpty_def lookup_upd
            split: if_splits)
  qed
qed

lemma updateConfig_frame:
  assumes "q \<noteq> configPath env"
  shows "disk (finish (updateConfig env host a key known (fs, t))) q = fs q"
  using assms
  by (auto simp: updateConfig_def existsSync_def readFileSync_def appendFileSync_def
           split: option.splits node.splits)


lemma updateConfig_status:
  "status (finish (updateConfig env host a key known (fs, t))) = Success \<or>
   status (finish (updateConfig env host a key known (fs, t))) = Failed FilesystemError"
  by (auto simp: updateConfig_def existsSync_def readFileSync_def appendFileSync_def
           split: option.splits node.splits)

declare createSharedSSHDirIfMissing.simps [simp del] generateKeyIfNotExists.simps [simp del]
  createKnownHostsIfMissing.simps [simp del] readConfigContent.simps [simp del]
  appendIfMissing.simps [simp del]

lemma andThen_Inr_iff:
  "andThen x f = Inr b \<longleftrightarrow> (\<exists>a. x = Inr a \<and> f a = Inr b)"
  by (cases x) auto

lemma stepsBeforeKnownHosts_trace:
  assumes "stepsBeforeKnownHosts env pn a fs = Inr (fs2, t2)"
  shows "set t2 \<subseteq> {Mkdir (sharedSSHDir env),
                    Exec (keygenCommand (privateKeyPath env pn a) a)}"
  using assms
  by (auto simp: stepsBeforeKnownHosts_def andThen_Inr_iff createSharedSSHDir_eq generateKey_eq
           split: if_splits)

lemma stepsBeforeConfig_trace:
  assumes "stepsBeforeConfig env pn a fs = Inr (fs3, t3)"
  shows "set t3 \<subseteq> {Mkdir (sharedSSHDir env),
                    Exec (keygenCommand (privateKeyPath env pn a) a),
                    WriteFile (knownHostsPath env) knownHostsContent 384}"
proof -
  from assms obtain fs2 t2 where
    a: "stepsBeforeKnownHosts env pn a fs = Inr (fs2, t2)" and
    b: "createKnownHostsIfMissing env (fs2, t2) = Inr (fs3, t3)"
    by (auto simp: stepsBeforeConfig_def andThen_Inr_iff)
  from stepsBeforeKnownHosts_trace[OF a] b show ?thesis
    by (auto simp: createKnownHosts_eq split: if_splits)
qed

lemma base_ne_alias: "baseBlock host key known \<noteq> aliasBlock host a key known"
proof
  assume "baseBlock host key known = aliasBlock host a key known"
  then have "length (baseBlock host key known) = length (aliasBlock host a key known)"
    by simp
  then show False by (simp add: baseBlock_def aliasBlock_def)
qed

lemma run_with_base_present_raw:
  assumes v: "a \<noteq> []" "p \<noteq> []" "hostMap (toLowerCase p) = Some host"
    and r: "configAtRead env (toLowerCase p) a fs = Some (Some (RegularFile cfg m))"
    and i: "str_includes cfg (''Host '' @ host)"
  shows "AppendFile (configPath env)
            (baseBlock host (privateKeyPath env (toLowerCase p) a) (knownHostsPath env))
            \<notin> set (trace (generateSharedSSHKey env (Some a) (Some p) fs)) \<and>
         (AppendFile (configPath env)
            (aliasBlock host a (privateKeyPath env (toLowerCase p) a) (knownHostsPath env))
            \<in> set (trace (generateSharedSSHKey env (Some a) (Some p) fs))
          \<longleftrightarrow> status (generateSharedSSHKey env (Some a) (Some p) fs) = Success \<and>
              \<not> str_includes cfg (''Host '' @ host @ ''-'' @ a)) \<and>
         disk (generateSharedSSHKey env (Some a) (Some p) fs) (configPath env) =
           Some (RegularFile
                  (cfg @
                   (if status (generateSharedSSHKey env (Some a) (Some p) fs) = Success \<and>
                       \<not> str_includes cfg (''Host '' @ host @ ''-'' @ a)
                    then aliasBlock host a (privateKeyPath env (toLowerCase p) a)
                           (knownHostsPath env)
                    else [])) m)"
proof -
  let ?p = "privateKeyPath env (toLowerCase p) a"
  let ?k = "knownHostsPath env"
  let ?c = "configPath env"
  from r obtain fs3 t3 where
    s: "stepsBeforeConfig env (toLowerCase p) a fs = Inr (fs3, t3)" and
    f: "lookup env fs3 ?c = Some (RegularFile cfg m)"
    by (auto simp: configAtRead_def split: sum.splits)
  from stepsBeforeConfig_trace[OF s] have tr: "\<forall>blk. AppendFile ?c blk \<notin> set t3" by auto
  from f have raw: "fs3 ?c = Some (RegularFile cfg m)" by (rule lookup_raw)
  from tr raw i show ?thesis
    using base_ne_alias[of host ?p ?k a]
    by (auto simp: run_unfold[OF v] s updateConfig_base_present[OF f])
qed

lemma updateConfig_ancestorsOK:
  "ancestorsOK env (disk (finish (updateConfig env host a key known (fs, t)))) (configPath env)
     = ancestorsOK env fs (configPath env)"
proof -
  have "disk (finish (updateConfig env host a key known (fs, t))) = fs \<or>
   (\<exists>n. disk (finish (updateConfig env host a key known (fs, t))) = fs(configPath env \<mapsto> n))"
    by (auto simp: updateConfig_def existsSync_def readFileSync_def appendFileSync_def
          readConfigContent.simps appendIfMissing.simps
          split: option.splits node.splits)
  then show ?thesis by (auto simp: ancestorsOK_upd)
qed

text \<open>
  A run that reads a config file in which the base needle occurs: the base block is not
  appended, and the alias block is appended exactly when the run succeeds and the alias
  needle does not occur.
\<close>

lemma run_with_base_present:
  assumes v: "a \<noteq> []" "p \<noteq> []" "hostMap (toLowerCase p) = Some host"
    and r: "configAtRead env (toLowerCase p) a fs = Some (Some (RegularFile cfg m))"
    and i: "str_includes cfg (''Host '' @ host)"
  shows "AppendFile (configPath env)
            (baseBlock host (privateKeyPath env (toLowerCase p) a) (knownHostsPath env))
            \<notin> set (trace (generateSharedSSHKey env (Some a) (Some p) fs)) \<and>
         (AppendFile (configPath env)
            (aliasBlock host a (privateKeyPath env (toLowerCase p) a) (knownHostsPath env))
            \<in> set (trace (generateSharedSSHKey env (Some a) (Some p) fs))
          \<longleftrightarrow> status (generateSharedSSHKey env (Some a) (Some p) fs) = Success \<and>
              \<not> str_includes cfg (''Host '' @ host @ ''-'' @ a)) \<and>
         lookup env (disk (generateSharedSSHKey env (Some a) (Some p) fs)) (configPath env) =
           Some (RegularFile
                  (cfg @
                   (if status (generateSharedSSHKey env (Some a) (Some p) fs) = Success \<and>
                       \<not> str_includes cfg (''Host '' @ host @ ''-'' @ a)
                    then aliasBlock host a (privateKeyPath env (toLowerCase p) a)
                           (knownHostsPath env)
                    else [])) m)"
proof -
  let ?c = "configPath env"
  let ?r = "generateSharedSSHKey env (Some a) (Some p) fs"
  from r obtain fs3 t3 where
    s: "stepsBeforeConfig env (toLowerCase p) a fs = Inr (fs3, t3)" and
    l: "lookup env fs3 ?c = Some (RegularFile cfg m)"
    by (auto simp: configAtRead_def split: sum.splits)
  from l have "ancestorsOK env fs3 ?c" by (rule lookup_ancestorsOK)
  then have ok: "ancestorsOK env (disk ?r) ?c"
    by (simp add: run_unfold[OF v] s updateConfig_ancestorsOK)
  from run_with_base_present_raw[OF v r i] ok show ?thesis
    by (simp add: lookup_def)
qed

text \<open>
  A run from a state in which the config file is visible, on a machine whose key
  generation command leaves the config file as it is: either the run stops before the
  config file is read, and the config file is as it was, or it reads the content that
  was there at the start.
\<close>

lemma dir_visible_of_config:
  assumes "lookup env fs (configPath env) = Some n"
  shows "existsSync env fs (sharedSSHDir env)"
proof -
  from assms have "ancestorsOK env fs (configPath env)" by (rule lookup_ancestorsOK)
  then have "ancestorsOK env fs (knownHostsPath env)" by (simp only: ancestorsOK_fixed)
  then have "lookup env fs (sharedSSHDir env) = Some Directory" by (rule dir_visible)
  then show ?thesis by (simp add: existsSync_iff)
qed

lemma before_config_cases:
  assumes f: "lookup env fs (configPath env) = Some (RegularFile cfg m)"
    and q: "lookup env (snd (execSync env (keygenCommand (privateKeyPath env pn a) a) fs))
              (configPath env) = lookup env fs (configPath env)"
  shows "(\<exists>e fs' t'. stepsBeforeConfig env pn a fs = Inl (e, (fs', t')) \<and>
            lookup env fs' (configPath env) = Some (RegularFile cfg m) \<and>
            (\<forall>blk. AppendFile (configPath env) blk \<notin> set t')) \<or>
         (\<exists>fs3 t3. stepsBeforeConfig env pn a fs = Inr (fs3, t3) \<and>
            lookup env fs3 (configPath env) = Some (RegularFile cfg m))"
proof -
  let ?c = "configPath env"
  let ?cmd = "keygenCommand (privateKeyPath env pn a) a"
  let ?fsx = "snd (execSync env ?cmd fs)"
  have d: "createSharedSSHDirIfMissing env (fs, []) = Inr (fs, [])"
    by (simp add: createSharedSSHDir_eq dir_visible_of_config[OF f])
  from q f have fx: "lookup env ?fsx ?c = Some (RegularFile cfg m)" by simp
  have k: "stepsBeforeKnownHosts env pn a fs = Inr (fs, []) \<or>
           stepsBeforeKnownHosts env pn a fs = Inr (?fsx, [Exec ?cmd]) \<or>
           stepsBeforeKnownHosts env pn a fs = Inl (KeyGenerationFailed, (?fsx, [Exec ?cmd]))"
    by (simp add: stepsBeforeKnownHosts_def d generateKey_eq)
  have step: "\<And>fs2 t2. lookup env fs2 ?c = Some (RegularFile cfg m) \<Longrightarrow>
                 (\<forall>blk. AppendFile ?c blk \<notin> set t2) \<Longrightarrow>
                 (\<exists>e fs' t'. createKnownHostsIfMissing env (fs2, t2) = Inl (e, (fs', t')) \<and>
                    lookup env fs' ?c = Some (RegularFile cfg m) \<and>
                    (\<forall>blk. AppendFile ?c blk \<notin> set t')) \<or>
                 (\<exists>fs3 t3. createKnownHostsIfMissing env (fs2, t2) = Inr (fs3, t3) \<and>
                    lookup env fs3 ?c = Some (RegularFile cfg m))"
    by (simp add: createKnownHosts_eq lookup_upd)
  from k show ?thesis
  proof (elim disjE)
    assume s: "stepsBeforeKnownHosts env pn a fs = Inr (fs, [])"
    from step[OF f, of "[]"] show ?thesis by (simp add: stepsBeforeConfig_def s)
  next
    assume s: "stepsBeforeKnownHosts env pn a fs = Inr (?fsx, [Exec ?cmd])"
    from step[OF fx, of "[Exec ?cmd]"] show ?thesis by (simp add: stepsBeforeConfig_def s)
  next
    assume s: "stepsBeforeKnownHosts env pn a fs =
                 Inl (KeyGenerationFailed, (?fsx, [Exec ?cmd]))"
    from fx show ?thesis by (simp add: stepsBeforeConfig_def s)
  qed
qed

lemma run_from_config_with_base:
  assumes v: "a \<noteq> []" "p \<noteq> []" "hostMap (toLowerCase p) = Some host"
    and f: "lookup env fs (configPath env) = Some (RegularFile cfg m)"
    and q: "lookup env
              (snd (execSync env (keygenCommand (privateKeyPath env (toLowerCase p) a) a) fs))
              (configPath env) = lookup env fs (configPath env)"
    and i: "str_includes cfg (''Host '' @ host)"
  shows "AppendFile (configPath env)
            (baseBlock host (privateKeyPath env (toLowerCase p) a) (knownHostsPath env))
            \<notin> set (trace (generateSharedSSHKey env (Some a) (Some p) fs)) \<and>
         (AppendFile (configPath env)
            (aliasBlock host a (privateKeyPath env (toLowerCase p) a) (knownHostsPath env))
            \<in> set (trace (generateSharedSSHKey env (Some a) (Some p) fs))
          \<longleftrightarrow> status (generateSharedSSHKey env (Some a) (Some p) fs) = Success \<and>
              \<not> str_includes cfg (''Host '' @ host @ ''-'' @ a)) \<and>
         lookup env (disk (generateSharedSSHKey env (Some a) (Some p) fs)) (configPath env) =
           Some (RegularFile
                  (cfg @
                   (if status (generateSharedSSHKey env (Some a) (Some p) fs) = Success \<and>
                       \<not> str_includes cfg (''Host '' @ host @ ''-'' @ a)
                    then aliasBlock host a (privateKeyPath env (toLowerCase p) a)
                           (knownHostsPath env)
                    else [])) m)"
proof -
  let ?c = "configPath env"
  let ?r = "generateSharedSSHKey env (Some a) (Some p) fs"
  from before_config_cases[OF f q] show ?thesis
  proof (elim disjE exE conjE)
    fix e fs' t'
    assume s: "stepsBeforeConfig env (toLowerCase p) a fs = Inl (e, (fs', t'))"
      and l: "lookup env fs' ?c = Some (RegularFile cfg m)"
      and t: "\<forall>blk. AppendFile ?c blk \<notin> set t'"
    have "?r = \<lparr>status = Failed e, disk = fs', trace = t'\<rparr>"
      by (simp add: run_unfold[OF v] s)
    with l t show ?thesis by simp
  next
    fix fs3 t3
    assume s: "stepsBeforeConfig env (toLowerCase p) a fs = Inr (fs3, t3)"
      and l: "lookup env fs3 ?c = Some (RegularFile cfg m)"
    from s l have r: "configAtRead env (toLowerCase p) a fs = Some (Some (RegularFile cfg m))"
      by (simp add: configAtRead_def)
    from run_with_base_present[OF v r i] show ?thesis .
  qed
qed

lemma block_includes:
  "str_includes (cfg @ baseBlock host key known) (''Host '' @ host)"
  "str_includes (cfg @ aliasBlock host a key known) (''Host '' @ host @ ''-'' @ a)"
  "str_includes (cfg @ baseBlock host key known @ rest) (''Host '' @ host)"
proof -
  have "cfg @ baseBlock host key known =
        (cfg @ [newline]) @ (''Host '' @ host) @
        ([newline] @ ''    HostName '' @ host @
         [newline] @ ''    User git'' @
         [newline] @ ''    IdentityFile '' @ key @
         [newline] @ ''    IdentitiesOnly yes'' @
         [newline] @ ''    UserKnownHostsFile '' @ known @
         [newline] @ ''    GlobalKnownHostsFile '' @ known @ [newline])"
    by (simp add: baseBlock_def)
  then have b: "sublist (''Host '' @ host) (cfg @ baseBlock host key known)"
    unfolding sublist_def by blast
  then show "str_includes (cfg @ baseBlock host key known) (''Host '' @ host)"
    by (simp only: str_includes_sublist)
  have "cfg @ aliasBlock host a key known =
        (cfg @ [newline]) @ (''Host '' @ host @ ''-'' @ a) @
        ([newline] @ ''    HostName '' @ host @
         [newline] @ ''    User git'' @
         [newline] @ ''    IdentityFile '' @ key @
         [newline] @ ''    IdentitiesOnly yes'' @
         [newline] @ ''    UserKnownHostsFile '' @ known @
         [newline] @ ''    GlobalKnownHostsFile '' @ known @ [newline])"
    by (simp add: aliasBlock_def)
  then have "sublist (''Host '' @ host @ ''-'' @ a) (cfg @ aliasBlock host a key known)"
    unfolding sublist_def by blast
  then show "str_includes (cfg @ aliasBlock host a key known) (''Host '' @ host @ ''-'' @ a)"
    by (simp only: str_includes_sublist)
  from b have "sublist (''Host '' @ host) ((cfg @ baseBlock host key known) @ rest)"
    by (metis sublist_order.order.trans sublist_append_rightI)
  then show "str_includes (cfg @ baseBlock host key known @ rest) (''Host '' @ host)"
    by (simp only: str_includes_sublist append_assoc)
qed

lemma str_includes_append: "str_includes cfg n \<Longrightarrow> str_includes (cfg @ rest) n"
  unfolding str_includes_sublist
  by (metis sublist_order.order.trans sublist_append_rightI)





lemma op_distinct:
  "WriteFile k c m \<noteq> Mkdir d" "WriteFile k c m \<noteq> Exec cmd" "WriteFile k c m \<noteq> AppendFile q b"
  by simp_all

lemma createKnownHosts_exists:
  assumes "createKnownHostsIfMissing env (fs2, t2) = Inr (fs3, t3)"
  shows "existsSync env fs3 (knownHostsPath env)"
  using assms
  by (auto simp: createKnownHosts_eq existsSync_iff lookup_upd split: if_splits)

lemma needles_after_append:
  "str_includes
     (w @ (if str_includes w (''Host '' @ host) then [] else baseBlock host key known) @
          (if str_includes w (''Host '' @ host @ ''-'' @ a) then []
           else aliasBlock host a key known))
     (''Host '' @ host)"
  "str_includes
     (w @ (if str_includes w (''Host '' @ host) then [] else baseBlock host key known) @
          (if str_includes w (''Host '' @ host @ ''-'' @ a) then []
           else aliasBlock host a key known))
     (''Host '' @ host @ ''-'' @ a)"
proof -
  let ?B = "if str_includes w (''Host '' @ host) then [] else baseBlock host key known"
  let ?A = "if str_includes w (''Host '' @ host @ ''-'' @ a) then []
            else aliasBlock host a key known"
  show "str_includes (w @ ?B @ ?A) (''Host '' @ host)"
  proof (cases "str_includes w (''Host '' @ host)")
    case True
    from str_includes_append[OF True, of "?B @ ?A"] show ?thesis .
  next
    case False
    have "str_includes (w @ baseBlock host key known @ ?A) (''Host '' @ host)"
      by (rule block_includes(3))
    with False show ?thesis by (simp only: if_False)
  qed
  show "str_includes (w @ ?B @ ?A) (''Host '' @ host @ ''-'' @ a)"
  proof (cases "str_includes w (''Host '' @ host @ ''-'' @ a)")
    case True
    from str_includes_append[OF True, of "?B @ ?A"] show ?thesis .
  next
    case False
    have "str_includes ((w @ ?B) @ aliasBlock host a key known) (''Host '' @ host @ ''-'' @ a)"
      by (rule block_includes(2))
    with False show ?thesis by (simp only: if_False append_assoc)
  qed
qed

lemma splitBy_chars:
  "l \<in> set (splitBy isSep cur s) \<Longrightarrow> set l \<subseteq> set cur \<union> set s"
proof (induction s arbitrary: cur)
  case Nil
  then show ?case by simp
next
  case (Cons c cs)
  show ?case
  proof (cases "isSep c")
    case True
    with Cons.prems have "l = cur \<or> l \<in> set (splitBy isSep [] cs)" by simp
    then show ?thesis using Cons.IH[of "[]"] by auto
  next
    case False
    with Cons.prems have "l \<in> set (splitBy isSep (cur @ [c]) cs)" by simp
    from Cons.IH[OF this] show ?thesis by auto
  qed
qed

lemma normalizeSegments_chars:
  "l \<in> set (normalizeSegments allow res segs) \<Longrightarrow>
     l \<in> set res \<or> l \<in> set segs \<or> l = ''..''"
proof (induction allow res segs rule: normalizeSegments.induct)
  case (1 allow res)
  then show ?case by simp
next
  case (2 allow res seg segs)
  then show ?case
    by (cases allow) (auto split: if_splits dest: in_set_butlastD)
qed

lemma joinWith_chars:
  "x \<in> set (joinWith sep segs) \<Longrightarrow> x \<in> set sep \<or> (\<exists>l \<in> set segs. x \<in> set l)"
  by (induction sep segs rule: joinWith.induct) auto

lemma normalizeString_chars:
  assumes "x \<in> set (normalizeString path allow sep isSep)"
  shows "x \<in> set sep \<or> x \<in> set path \<or> x = CHR ''.''"
proof -
  from assms joinWith_chars
  have "x \<in> set sep \<or> (\<exists>l \<in> set (normalizeSegments allow [] (splitBy isSep [] path)). x \<in> set l)"
    unfolding normalizeString_def by blast
  then show ?thesis
  proof
    assume "x \<in> set sep" then show ?thesis by simp
  next
    assume "\<exists>l \<in> set (normalizeSegments allow [] (splitBy isSep [] path)). x \<in> set l"
    then obtain l where l: "l \<in> set (normalizeSegments allow [] (splitBy isSep [] path))" "x \<in> set l"
      by blast
    from normalizeSegments_chars[OF l(1)] have "l \<in> set (splitBy isSep [] path) \<or> l = ''..''"
      by simp
    then show ?thesis using l(2) splitBy_chars[of l isSep "[]" path] by auto
  qed
qed

lemma posix_normalize_chars:
  assumes "x \<in> set (posix_normalize path)"
  shows "x \<in> set path \<or> x = CHR ''.'' \<or> x = CHR ''/''"
  using assms normalizeString_chars[of x path _ "''/''" isPosixPathSeparator]
  by (auto simp: posix_normalize_def Let_def split: if_splits)

lemma win32_normalize_chars:
  assumes "x \<in> set (win32_normalize path)"
  shows "x \<in> set path \<or> x = CHR ''.'' \<or> x = bslash"
proof (cases path)
  case Nil
  with assms show ?thesis by (simp add: win32_normalize_def)
next
  case (Cons d r1)
  show ?thesis
  proof (cases r1)
    case Nil
    with Cons assms show ?thesis by (simp add: win32_normalize_def)
  next
    case (Cons c r2)
    note c2 = this
    show ?thesis
    proof (cases r2)
      case Nil
      with c2 \<open>path = d # r1\<close> assms show ?thesis by (simp add: win32_normalize_def)
    next
      case (Cons s rest)
      with c2 \<open>path = d # r1\<close> have pth: "path = d # c # s # rest" by simp
      from assms show ?thesis
        unfolding pth win32_normalize_def
        using normalizeString_chars[of x rest False "[bslash]" isPathSeparator]
        by (auto simp: Let_def split: if_splits)
    qed
  qed
qed

lemma posix_join_chars:
  assumes "x \<in> set (posix_join a b)"
  shows "x \<in> set a \<or> x \<in> set b \<or> x = CHR ''.'' \<or> x = CHR ''/''"
proof -
  from assms consider "x = CHR ''.''" | "x \<in> set (posix_normalize b)"
    | "x \<in> set (posix_normalize a)" | "x \<in> set (posix_normalize (a @ ''/'' @ b))"
    by (auto simp: posix_join_def split: if_splits)
  then show ?thesis
  proof cases
    case 1 then show ?thesis by simp
  next
    case 2 from posix_normalize_chars[OF this] show ?thesis by blast
  next
    case 3 from posix_normalize_chars[OF this] show ?thesis by blast
  next
    case 4 from posix_normalize_chars[OF this] show ?thesis by auto
  qed
qed

lemma win32_join_chars:
  assumes "x \<in> set (win32_join a b)"
  shows "x \<in> set a \<or> x \<in> set b \<or> x = CHR ''.'' \<or> x = bslash"
proof -
  from assms consider "x = CHR ''.''" | "x \<in> set (win32_normalize b)"
    | "x \<in> set (win32_normalize a)" | "x \<in> set (win32_normalize (a @ [bslash] @ b))"
    by (auto simp: win32_join_def split: if_splits)
  then show ?thesis
  proof cases
    case 1 then show ?thesis by simp
  next
    case 2 from win32_normalize_chars[OF this] show ?thesis by blast
  next
    case 3 from win32_normalize_chars[OF this] show ?thesis by blast
  next
    case 4 from win32_normalize_chars[OF this] show ?thesis by auto
  qed
qed

lemma path_join_chars:
  assumes "x \<in> set (path_join env a b)"
  shows "x \<in> set a \<or> x \<in> set b \<or> x = CHR ''.'' \<or> x = CHR ''/'' \<or> x = bslash"
proof (cases "platform env = ''win32''")
  case True
  with assms have "x \<in> set (win32_join a b)" by (simp add: path_join_def)
  from win32_join_chars[OF this] show ?thesis by blast
next
  case False
  with assms have "x \<in> set (posix_join a b)" by (simp add: path_join_def)
  from posix_join_chars[OF this] show ?thesis by blast
qed

lemma newline_not_special:
  "newline \<noteq> CHR ''.''" "newline \<noteq> CHR ''/''" "newline \<noteq> bslash"
  by (simp_all add: newline_def bslash_def)

lemma object_prototype_no_newline:
  assumes "object_prototype pn = Some host"
  shows "newline \<notin> set host \<and> newline \<notin> set pn"
proof -
  from assms have
    "(pn, host) \<in> {(''constructor'', ''function Object() { [native code] }''),
       (''__proto__'', ''[object Object]''),
       (''hasOwnProperty'', ''function hasOwnProperty() { [native code] }''),
       (''isPrototypeOf'', ''function isPrototypeOf() { [native code] }''),
       (''propertyIsEnumerable'', ''function propertyIsEnumerable() { [native code] }''),
       (''toLocaleString'', ''function toLocaleString() { [native code] }''),
       (''toString'', ''function toString() { [native code] }''),
       (''valueOf'', ''function valueOf() { [native code] }''),
       (''__defineGetter__'', ''function __defineGetter__() { [native code] }''),
       (''__defineSetter__'', ''function __defineSetter__() { [native code] }''),
       (''__lookupGetter__'', ''function __lookupGetter__() { [native code] }''),
       (''__lookupSetter__'', ''function __lookupSetter__() { [native code] }'')}"
    unfolding object_prototype_def
    by (simp only: split: if_splits) (simp_all only: option.inject option.distinct insert_iff prod.inject simp_thms)
  then show ?thesis
    by (elim insertE emptyE; simp only: prod.inject; elim conjE; simp add: newline_def)
qed

lemma hostMap_no_newline:
  assumes "hostMap pn = Some host"
  shows "newline \<notin> set host" and "newline \<notin> set pn"
proof -
  have "newline \<notin> set host \<and> newline \<notin> set pn"
  proof (cases "pn = ''github''")
    case True
    with assms show ?thesis by (auto simp: hostMap_def newline_def)
  next
    case False
    note ng = this
    show ?thesis
    proof (cases "pn = ''bitbucket''")
      case True
      with assms show ?thesis by (auto simp: hostMap_def newline_def)
    next
      case False
      with ng assms have "object_prototype pn = Some host" by (simp add: hostMap_def)
      then show ?thesis by (rule object_prototype_no_newline)
    qed
  qed
  then show "newline \<notin> set host" and "newline \<notin> set pn" by simp_all
qed

lemma fixed_paths_no_newline:
  "newline \<notin> set (sharedSSHDir env)" "newline \<notin> set (knownHostsPath env)"
  by (simp_all add: sharedSSHDir_eq knownHostsPath_eq newline_def bslash_def)

lemma privateKeyPath_no_newline:
  assumes "newline \<notin> set pn" "newline \<notin> set a"
  shows "newline \<notin> set (privateKeyPath env pn a)"
proof
  assume "newline \<in> set (privateKeyPath env pn a)"
  from path_join_chars[OF this[unfolded privateKeyPath_def]]
  show False
    using assms fixed_paths_no_newline(1)[of env] newline_not_special
    by (auto simp: keyName_def newline_def)
qed

lemma splitBy_append:
  assumes "\<forall>c \<in> set xs. \<not> isSep c"
  shows "splitBy isSep cur (xs @ ys) = splitBy isSep (cur @ xs) ys"
  using assms by (induction xs arbitrary: cur) auto

lemma splitLines_line:
  assumes "newline \<notin> set xs"
  shows "splitBy (\<lambda>c. c = newline) cur (xs @ newline # ys) =
           (cur @ xs) # splitBy (\<lambda>c. c = newline) [] ys"
  using assms by (subst splitBy_append) auto

lemma splitBy_lines:
  assumes "\<forall>l \<in> set ls. newline \<notin> set l"
  shows "splitBy (\<lambda>c. c = newline) [] (concat (map (\<lambda>l. l @ [newline]) ls) @ rest) =
           ls @ splitBy (\<lambda>c. c = newline) [] rest"
  using assms
proof (induction ls)
  case Nil
  then show ?case by simp
next
  case (Cons l ls)
  then have "newline \<notin> set l" by simp
  from splitLines_line[OF this, of "[]"] Cons show ?case by simp
qed

lemma baseBlock_lines:
  "baseBlock host key known =
     concat (map (\<lambda>l. l @ [newline])
       [[], ''Host '' @ host, ''    HostName '' @ host, ''    User git'',
        ''    IdentityFile '' @ key, ''    IdentitiesOnly yes'',
        ''    UserKnownHostsFile '' @ known, ''    GlobalKnownHostsFile '' @ known])"
  by (simp add: baseBlock_def)

lemma aliasBlock_lines:
  "aliasBlock host a key known =
     concat (map (\<lambda>l. l @ [newline])
       [[], ''Host '' @ host @ ''-'' @ a, ''    HostName '' @ host, ''    User git'',
        ''    IdentityFile '' @ key, ''    IdentitiesOnly yes'',
        ''    UserKnownHostsFile '' @ known, ''    GlobalKnownHostsFile '' @ known])"
  by (simp add: aliasBlock_def)

lemma keywordOf_block_lines:
  "keywordOf [] = []"
  "keywordOf (''Host '' @ rest) = ''Host''"
  "keywordOf (''    HostName '' @ rest) = ''HostName''"
  "keywordOf ''    User git'' = ''User''"
  "keywordOf (''    IdentityFile '' @ rest) = ''IdentityFile''"
  "keywordOf ''    IdentitiesOnly yes'' = ''IdentitiesOnly''"
  "keywordOf (''    UserKnownHostsFile '' @ rest) = ''UserKnownHostsFile''"
  "keywordOf (''    GlobalKnownHostsFile '' @ rest) = ''GlobalKnownHostsFile''"
  by (simp_all add: keywordOf_def isBlank_def dquote_def)

lemma toLowerCase_keywords:
  "toLowerCase [] \<noteq> ''host''"
  "toLowerCase ''Host'' = ''host''"
  "toLowerCase ''HostName'' \<noteq> ''host''"
  "toLowerCase ''User'' \<noteq> ''host''"
  "toLowerCase ''IdentityFile'' \<noteq> ''host''"
  "toLowerCase ''IdentitiesOnly'' \<noteq> ''host''"
  "toLowerCase ''UserKnownHostsFile'' \<noteq> ''host''"
  "toLowerCase ''GlobalKnownHostsFile'' \<noteq> ''host''"
  by code_simp+

lemma isHostLine_block_lines:
  "\<not> isHostLine []"
  "isHostLine (''Host '' @ rest)"
  "\<not> isHostLine (''    HostName '' @ rest)"
  "\<not> isHostLine ''    User git''"
  "\<not> isHostLine (''    IdentityFile '' @ rest)"
  "\<not> isHostLine ''    IdentitiesOnly yes''"
  "\<not> isHostLine (''    UserKnownHostsFile '' @ rest)"
  "\<not> isHostLine (''    GlobalKnownHostsFile '' @ rest)"
  unfolding isHostLine_def keywordOf_block_lines
  by (rule toLowerCase_keywords)+

lemma hostLines_blocks:
  assumes "newline \<notin> set host" "newline \<notin> set a" "newline \<notin> set key"
    "newline \<notin> set known"
  shows "hostLines (baseBlock host key known @ aliasBlock host a key known) =
           [''Host '' @ host, ''Host '' @ host @ ''-'' @ a]"
proof -
  have nl: "newline \<noteq> CHR ''H''" "newline \<noteq> CHR ''o''" "newline \<noteq> CHR ''s''"
    "newline \<noteq> CHR ''t''" "newline \<noteq> CHR '' ''" "newline \<noteq> CHR ''N''"
    "newline \<noteq> CHR ''a''" "newline \<noteq> CHR ''m''" "newline \<noteq> CHR ''e''"
    "newline \<noteq> CHR ''U''" "newline \<noteq> CHR ''r''" "newline \<noteq> CHR ''g''"
    "newline \<noteq> CHR ''i''" "newline \<noteq> CHR ''I''" "newline \<noteq> CHR ''d''"
    "newline \<noteq> CHR ''n''" "newline \<noteq> CHR ''y''" "newline \<noteq> CHR ''F''"
    "newline \<noteq> CHR ''l''" "newline \<noteq> CHR ''O''" "newline \<noteq> CHR ''K''"
    "newline \<noteq> CHR ''w''" "newline \<noteq> CHR ''G''" "newline \<noteq> CHR ''b''"
    "newline \<noteq> CHR ''-''"
    by (simp_all add: newline_def)
  have b: "splitBy (\<lambda>c. c = newline) []
             (baseBlock host key known @ aliasBlock host a key known) =
           [[], ''Host '' @ host, ''    HostName '' @ host, ''    User git'',
            ''    IdentityFile '' @ key, ''    IdentitiesOnly yes'',
            ''    UserKnownHostsFile '' @ known, ''    GlobalKnownHostsFile '' @ known] @
           splitBy (\<lambda>c. c = newline) [] (aliasBlock host a key known)"
    unfolding baseBlock_lines
    by (rule splitBy_lines) (use assms nl in auto)
  have a: "splitBy (\<lambda>c. c = newline) [] (aliasBlock host a key known @ []) =
           [[], ''Host '' @ host @ ''-'' @ a, ''    HostName '' @ host, ''    User git'',
            ''    IdentityFile '' @ key, ''    IdentitiesOnly yes'',
            ''    UserKnownHostsFile '' @ known, ''    GlobalKnownHostsFile '' @ known] @
           splitBy (\<lambda>c. c = newline) [] []"
    unfolding aliasBlock_lines
    by (rule splitBy_lines) (use assms nl in auto)
  have a': "splitBy (\<lambda>c. c = newline) [] (aliasBlock host a key known) =
           [[], ''Host '' @ host @ ''-'' @ a, ''    HostName '' @ host, ''    User git'',
            ''    IdentityFile '' @ key, ''    IdentitiesOnly yes'',
            ''    UserKnownHostsFile '' @ known, ''    GlobalKnownHostsFile '' @ known, []]"
    using a by simp
  show ?thesis
    unfolding hostLines_def splitLines_def b a'
    using isHostLine_block_lines(1)
      isHostLine_block_lines(2)[of host] isHostLine_block_lines(2)[of "host @ ''-'' @ a"]
      isHostLine_block_lines(3)[of host] isHostLine_block_lines(4)
      isHostLine_block_lines(5)[of key] isHostLine_block_lines(6)
      isHostLine_block_lines(7)[of known] isHostLine_block_lines(8)[of known]
    by simp
qed

lemma no_needle_in_empty: "\<not> str_includes [] (''Host '' @ rest)"
  by simp

text \<open>
  A successful run that finds no config file when it reads it leaves the base block
  followed by the alias block.
\<close>

lemma fresh_config_content:
  assumes s: "status (generateSharedSSHKey env (Some a) (Some p) fs) = Success"
    and h: "hostMap (toLowerCase p) = Some host"
    and x: "configAtRead env (toLowerCase p) a fs = Some None"
  shows "\<exists>m. lookup env (disk (generateSharedSSHKey env (Some a) (Some p) fs)) (configPath env) =
           Some (RegularFile
                  (baseBlock host (privateKeyPath env (toLowerCase p) a) (knownHostsPath env) @
                   aliasBlock host a (privateKeyPath env (toLowerCase p) a)
                     (knownHostsPath env)) m)"
proof -
  let ?c = "configPath env"
  let ?k = "knownHostsPath env"
  let ?key = "privateKeyPath env (toLowerCase p) a"
  from s have "a \<noteq> []" "p \<noteq> []"
    using run_reaches_steps[of env "Some a" "Some p" fs] by auto
  note v = this h
  let ?u = "updateConfig env host a ?key ?k"
  from x obtain fs3 t3 where
    s3: "stepsBeforeConfig env (toLowerCase p) a fs = Inr (fs3, t3)" and
    n3: "lookup env fs3 ?c = None"
    by (auto simp: configAtRead_def split: sum.splits)
  from s obtain w4 where s4: "?u (fs3, t3) = Inr w4"
    by (cases "?u (fs3, t3)") (auto simp: run_unfold[OF v] s3)
  obtain fs4 t4 where w4: "w4 = (fs4, t4)" by (cases w4)
  have d: "disk (generateSharedSSHKey env (Some a) (Some p) fs) = fs4"
    by (simp add: run_unfold[OF v] s3 s4 w4)
  from updateConfig_success[OF s4[unfolded w4]] obtain m' where
    fs4: "fs4 = fs3(?c \<mapsto> RegularFile (baseBlock host ?key ?k @ aliasBlock host a ?key ?k) m')"
    and ok: "ancestorsOK env fs3 ?c"
    unfolding n3 contentOrEmpty_def by auto
  have "lookup env fs4 ?c =
          Some (RegularFile (baseBlock host ?key ?k @ aliasBlock host a ?key ?k) m')"
    unfolding fs4 using ok by (simp only: lookup_upd if_P)
  then show ?thesis unfolding d by blast
qed

lemma toLowerCase_char_not_upper:
  "\<not> (65 \<le> (of_char (toLowerCase_char c) :: nat) \<and> (of_char (toLowerCase_char c) :: nat) \<le> 90)"
  by (auto simp: toLowerCase_char_def Let_def)

lemma toLowerCase_no_upper:
  "list_all (\<lambda>c. \<not> (65 \<le> (of_char c :: nat) \<and> (of_char c :: nat) \<le> 90)) (toLowerCase s)"
  using toLowerCase_char_not_upper by (auto simp: toLowerCase_def list_all_iff)

lemma run_lowercased:
  "generateSharedSSHKey env aliasArg (Some provider) fs =
     generateSharedSSHKey env aliasArg (Some (toLowerCase provider)) fs"
  by (simp add: generateSharedSSHKey_def toLowerCase_idem toLowerCase_Nil_iff
           split: option.split)

text \<open>
  A provider whose lowercase form the table does not resolve is rejected before any file
  system operation.
\<close>

lemma unresolved_provider_rejected:
  assumes "a \<noteq> []" and "provider \<noteq> []" and "hostMap (toLowerCase provider) = None"
  shows "generateSharedSSHKey env (Some a) (Some provider) fs =
           \<lparr>status = Failed InvalidProvider, disk = fs, trace = []\<rparr>"
  using assms by (simp add: generateSharedSSHKey_def)

section \<open>Argument and provider checks\<close>

text \<open>
  Claim C5. The provider is resolved to \<open>github.com\<close> for \<open>github\<close> and to
  \<open>bitbucket.org\<close> for \<open>bitbucket\<close>, and the resolution ignores the casing of the
  provider: every provider string resolves to what its lowercase form resolves to.
\<close>

theorem hostNameOf_case_insensitive:
  "hostNameOf ''github'' = Some ''github.com'' \<and>
   hostNameOf ''bitbucket'' = Some ''bitbucket.org'' \<and>
   hostNameOf ''GitHub'' = Some ''github.com'' \<and>
   hostNameOf ''BITBUCKET'' = Some ''bitbucket.org'' \<and>
   hostNameOf provider = hostNameOf (toLowerCase provider)"
proof -
  have "hostNameOf ''github'' = Some ''github.com''" by code_simp
  moreover have "hostNameOf ''bitbucket'' = Some ''bitbucket.org''" by code_simp
  moreover have "hostNameOf ''GitHub'' = Some ''github.com''" by code_simp
  moreover have "hostNameOf ''BITBUCKET'' = Some ''bitbucket.org''" by code_simp
  moreover have "hostNameOf provider = hostNameOf (toLowerCase provider)"
    by (simp add: hostNameOf_def toLowerCase_idem)
  ultimately show ?thesis by blast
qed

text \<open>
  Claim C6. With no positional argument or with one, and whenever the alias or the
  provider is absent, the run ends with the MissingArguments error and exit status 1,
  the file system is the one it started from and no file system operation was done.
\<close>

theorem missing_arguments_touch_nothing:
  "main env [node, script] fs =
     \<lparr>status = Failed MissingArguments, disk = fs, trace = []\<rparr> \<and>
   main env [node, script, a] fs =
     \<lparr>status = Failed MissingArguments, disk = fs, trace = []\<rparr> \<and>
   generateSharedSSHKey env None providerArg fs =
     \<lparr>status = Failed MissingArguments, disk = fs, trace = []\<rparr> \<and>
   generateSharedSSHKey env aliasArg None fs =
     \<lparr>status = Failed MissingArguments, disk = fs, trace = []\<rparr> \<and>
   exitCode (Failed MissingArguments) = 1"
  by (simp add: main_def argAt_def generateSharedSSHKey_def split: option.split)

text \<open>
  Claim C10. The provider is lowercased before any use: a run with a provider string
  and a run with its lowercase form are the same run (same status, same file system,
  same operations, with the blocks they append). The lowercase form has the length of
  the provider and holds no capital letter A to Z; \<open>GitHub\<close> becomes \<open>github\<close>. For
  the provider \<open>GitHub\<close> and the alias \<open>ci\<close> on an empty Linux file system, the run
  names the key \<open>id_ed25519_github_ci\<close>, generates it at that path, and appends the two
  blocks for \<open>github.com\<close> with that key path; nothing exists afterwards under the
  name \<open>id_ed25519_GitHub_ci\<close>.
\<close>

theorem provider_lowercased_before_use:
  "generateSharedSSHKey env aliasArg (Some provider) fs =
     generateSharedSSHKey env aliasArg (Some (toLowerCase provider)) fs \<and>
   length (toLowerCase provider) = length provider \<and>
   list_all (\<lambda>c. \<not> (65 \<le> (of_char c :: nat) \<and> (of_char c :: nat) \<le> 90))
     (toLowerCase provider) \<and>
   toLowerCase ''GitHub'' = ''github'' \<and>
   toLowerCase ''BITBUCKET'' = ''bitbucket'' \<and>
   keyName (toLowerCase ''GitHub'') ''ci'' = ''id_ed25519_github_ci'' \<and>
   status (generateSharedSSHKey linux_ok (Some ''ci'') (Some ''GitHub'') Map.empty) = Success \<and>
   trace (generateSharedSSHKey linux_ok (Some ''ci'') (Some ''GitHub'') Map.empty) =
     [Mkdir ''/nfs/ws/shared_ssh'',
      Exec (keygenCommand ''/nfs/ws/shared_ssh/id_ed25519_github_ci'' ''ci''),
      WriteFile ''/nfs/ws/shared_ssh/known_hosts'' knownHostsContent 384,
      AppendFile ''/nfs/ws/shared_ssh/config''
        (baseBlock ''github.com'' ''/nfs/ws/shared_ssh/id_ed25519_github_ci''
           ''/nfs/ws/shared_ssh/known_hosts''),
      AppendFile ''/nfs/ws/shared_ssh/config''
        (aliasBlock ''github.com'' ''ci'' ''/nfs/ws/shared_ssh/id_ed25519_github_ci''
           ''/nfs/ws/shared_ssh/known_hosts'')] \<and>
   existsSync linux_ok
     (disk (generateSharedSSHKey linux_ok (Some ''ci'') (Some ''GitHub'') Map.empty))
     ''/nfs/ws/shared_ssh/id_ed25519_github_ci'' \<and>
   existsSync linux_ok
     (disk (generateSharedSSHKey linux_ok (Some ''ci'') (Some ''GitHub'') Map.empty))
     ''/nfs/ws/shared_ssh/id_ed25519_github_ci.pub'' \<and>
   \<not> existsSync linux_ok
     (disk (generateSharedSSHKey linux_ok (Some ''ci'') (Some ''GitHub'') Map.empty))
     ''/nfs/ws/shared_ssh/id_ed25519_GitHub_ci'' \<and>
   lookup linux_ok
     (disk (generateSharedSSHKey linux_ok (Some ''ci'') (Some ''GitHub'') Map.empty))
     ''/nfs/ws/shared_ssh/config'' =
     Some (RegularFile
            (baseBlock ''github.com'' ''/nfs/ws/shared_ssh/id_ed25519_github_ci''
               ''/nfs/ws/shared_ssh/known_hosts'' @
             aliasBlock ''github.com'' ''ci'' ''/nfs/ws/shared_ssh/id_ed25519_github_ci''
               ''/nfs/ws/shared_ssh/known_hosts'') 420)"
proof -
  have g1: "generateSharedSSHKey env aliasArg (Some provider) fs =
     generateSharedSSHKey env aliasArg (Some (toLowerCase provider)) fs"
    by (rule run_lowercased)
  have g2: "length (toLowerCase provider) = length provider"
    by (simp add: toLowerCase_def)
  have g3: "list_all (\<lambda>c. \<not> (65 \<le> (of_char c :: nat) \<and> (of_char c :: nat) \<le> 90))
     (toLowerCase provider)"
    by (rule toLowerCase_no_upper)
  have c1: "toLowerCase ''GitHub'' = ''github''" by code_simp
  have c2: "toLowerCase ''BITBUCKET'' = ''bitbucket''" by code_simp
  have c3: "keyName (toLowerCase ''GitHub'') ''ci'' = ''id_ed25519_github_ci''" by code_simp
  have c4: "status (generateSharedSSHKey linux_ok (Some ''ci'') (Some ''GitHub'') Map.empty)
              = Success"
    by code_simp
  have c5: "trace (generateSharedSSHKey linux_ok (Some ''ci'') (Some ''GitHub'') Map.empty) =
     [Mkdir ''/nfs/ws/shared_ssh'',
      Exec (keygenCommand ''/nfs/ws/shared_ssh/id_ed25519_github_ci'' ''ci''),
      WriteFile ''/nfs/ws/shared_ssh/known_hosts'' knownHostsContent 384,
      AppendFile ''/nfs/ws/shared_ssh/config''
        (baseBlock ''github.com'' ''/nfs/ws/shared_ssh/id_ed25519_github_ci''
           ''/nfs/ws/shared_ssh/known_hosts''),
      AppendFile ''/nfs/ws/shared_ssh/config''
        (aliasBlock ''github.com'' ''ci'' ''/nfs/ws/shared_ssh/id_ed25519_github_ci''
           ''/nfs/ws/shared_ssh/known_hosts'')]"
    by code_simp
  have c6: "existsSync linux_ok
     (disk (generateSharedSSHKey linux_ok (Some ''ci'') (Some ''GitHub'') Map.empty))
     ''/nfs/ws/shared_ssh/id_ed25519_github_ci''"
    by code_simp
  have c7: "existsSync linux_ok
     (disk (generateSharedSSHKey linux_ok (Some ''ci'') (Some ''GitHub'') Map.empty))
     ''/nfs/ws/shared_ssh/id_ed25519_github_ci.pub''"
    by code_simp
  have c8: "\<not> existsSync linux_ok
     (disk (generateSharedSSHKey linux_ok (Some ''ci'') (Some ''GitHub'') Map.empty))
     ''/nfs/ws/shared_ssh/id_ed25519_GitHub_ci''"
    by code_simp
  have c9: "lookup linux_ok
     (disk (generateSharedSSHKey linux_ok (Some ''ci'') (Some ''GitHub'') Map.empty))
     ''/nfs/ws/shared_ssh/config'' =
     Some (RegularFile
            (baseBlock ''github.com'' ''/nfs/ws/shared_ssh/id_ed25519_github_ci''
               ''/nfs/ws/shared_ssh/known_hosts'' @
             aliasBlock ''github.com'' ''ci'' ''/nfs/ws/shared_ssh/id_ed25519_github_ci''
               ''/nfs/ws/shared_ssh/known_hosts'') 420)"
    by code_simp
  from g1 g2 g3 c1 c2 c3 c4 c5 c6 c7 c8 c9 show ?thesis by (intro conjI)
qed

text \<open>
  Claim C3 asks that every provider other than \<open>github\<close> and \<open>bitbucket\<close> is rejected
  with no file system change. The provider \<open>constructor\<close> is neither, yet the table
  lookup finds the inherited member of that name, the check on line 24 passes, and the
  run completes: on an empty file system, with a key generator that succeeds, it exits
  with status 0 after creating the directory, the key, known_hosts and the config file.
\<close>

theorem constructor_provider_accepted:
  "toLowerCase ''constructor'' \<noteq> ''github'' \<and>
   toLowerCase ''constructor'' \<noteq> ''bitbucket'' \<and>
   (let r = generateSharedSSHKey linux_ok (Some ''ci'') (Some ''constructor'') Map.empty
    in status r = Success \<and> exitCode (status r) = 0 \<and> length (trace r) = 5 \<and>
       existsSync linux_ok (disk r) ''/nfs/ws/shared_ssh'' \<and>
       existsSync linux_ok (disk r) ''/nfs/ws/shared_ssh/id_ed25519_constructor_ci'' \<and>
       existsSync linux_ok (disk r) ''/nfs/ws/shared_ssh/known_hosts'' \<and>
       existsSync linux_ok (disk r) ''/nfs/ws/shared_ssh/config'')"
  by code_simp

section \<open>Idempotence\<close>

text \<open>
  Claim C2 as stated does not hold. Line 44 puts the key path and the alias into the
  command line inside double quotes, where the shell still expands a dollar sign
  followed by a name. For the alias \<open>a$b\<close>, with no variable \<open>b\<close> set, the key
  generator is given a path that ends in \<open>_a\<close> and writes the key there, while the
  program tests the path that ends in \<open>_a$b\<close>. The first run succeeds; the second run
  finds no key at the computed path and launches the key generator again, which finds
  its target in place and fails.
\<close>

theorem second_run_generates_key_again:
  "status (generateSharedSSHKey linux_ok (Some ''a$b'') (Some ''github'') Map.empty) = Success \<and>
   \<not> existsSync linux_ok
       (disk (generateSharedSSHKey linux_ok (Some ''a$b'') (Some ''github'') Map.empty))
       (privateKeyPath linux_ok ''github'' ''a$b'') \<and>
   Exec (keygenCommand (privateKeyPath linux_ok ''github'' ''a$b'') ''a$b'')
     \<in> set (trace (generateSharedSSHKey linux_ok (Some ''a$b'') (Some ''github'')
          (disk (generateSharedSSHKey linux_ok (Some ''a$b'') (Some ''github'') Map.empty)))) \<and>
   status (generateSharedSSHKey linux_ok (Some ''a$b'') (Some ''github'')
          (disk (generateSharedSSHKey linux_ok (Some ''a$b'') (Some ''github'') Map.empty)))
     = Failed KeyGenerationFailed"
  by code_simp

text \<open>
  Claim C2, amended. When a run succeeds and has left the private key at the computed
  key path, a second run on the file system it left does nothing: no directory is
  created, no key is generated, known_hosts is not written, no block is appended, and
  the file system stays as it is. That second run succeeds unless reading the config file
  throws.
\<close>

theorem second_run_changes_nothing:
  assumes s: "status (generateSharedSSHKey env (Some a) (Some p) fs) = Success"
    and e: "existsSync env (disk (generateSharedSSHKey env (Some a) (Some p) fs))
              (privateKeyPath env (toLowerCase p) a)"
  shows "generateSharedSSHKey env (Some a) (Some p)
           (disk (generateSharedSSHKey env (Some a) (Some p) fs)) =
         \<lparr>status = (if io_error env (ReadCall (configPath env))
                          (disk (generateSharedSSHKey env (Some a) (Some p) fs))
                     then Failed FilesystemError else Success),
          disk = disk (generateSharedSSHKey env (Some a) (Some p) fs),
          trace = []\<rparr>"
proof -
  let ?c = "configPath env"
  let ?k = "knownHostsPath env"
  let ?key = "privateKeyPath env (toLowerCase p) a"
  from s obtain host where v: "a \<noteq> []" "p \<noteq> []" "hostMap (toLowerCase p) = Some host"
    using run_reaches_steps[of env "Some a" "Some p" fs] by auto
  let ?u = "updateConfig env host a ?key ?k"
  from s obtain w3 where s3: "stepsBeforeConfig env (toLowerCase p) a fs = Inr w3"
    by (cases "stepsBeforeConfig env (toLowerCase p) a fs") (auto simp: run_unfold[OF v])
  obtain fs3 t3 where w3: "w3 = (fs3, t3)" by (cases w3)
  from s obtain w4 where s4: "?u (fs3, t3) = Inr w4"
    by (cases "?u (fs3, t3)") (auto simp: run_unfold[OF v] s3 w3)
  obtain fs4 t4 where w4: "w4 = (fs4, t4)" by (cases w4)
  have d: "disk (generateSharedSSHKey env (Some a) (Some p) fs) = fs4"
    by (simp add: run_unfold[OF v] s3 w3 s4 w4)
  from s3 w3 obtain fs2 t2 where
    "createKnownHostsIfMissing env (fs2, t2) = Inr (fs3, t3)"
    by (auto simp: stepsBeforeConfig_def andThen_Inr_iff)
  then have k3: "existsSync env fs3 ?k" by (rule createKnownHosts_exists)
  let ?w = "contentOrEmpty (lookup env fs3 ?c)"
  let ?cfg = "?w @ (if str_includes ?w (''Host '' @ host) then [] else baseBlock host ?key ?k) @
              (if str_includes ?w (''Host '' @ host @ ''-'' @ a) then []
               else aliasBlock host a ?key ?k)"
  from updateConfig_success[OF s4[unfolded w4]] obtain m' where
    fs4: "fs4 = fs3(?c \<mapsto> RegularFile ?cfg m')" and ok: "ancestorsOK env fs3 ?c"
    by blast
  have k4: "existsSync env fs4 ?k"
    using k3 unfolding fs4 by (simp add: existsSync_iff lookup_upd)
  then obtain n where "lookup env fs4 ?k = Some n" by (auto simp: existsSync_iff)
  then have "ancestorsOK env fs4 ?k" by (rule lookup_ancestorsOK)
  then have "lookup env fs4 (sharedSSHDir env) = Some Directory" by (rule dir_visible)
  then have d4: "existsSync env fs4 (sharedSSHDir env)" by (simp add: existsSync_iff)
  have c4: "lookup env fs4 ?c = Some (RegularFile ?cfg m')"
    unfolding fs4 using ok by (simp only: lookup_upd if_P)
  from e have e4: "existsSync env fs4 ?key" unfolding d .
  have st: "stepsBeforeConfig env (toLowerCase p) a fs4 = Inr (fs4, [])"
    by (simp add: stepsBeforeConfig_def stepsBeforeKnownHosts_def createSharedSSHDir_eq d4
          generateKey_eq e4 createKnownHosts_eq k4)
  have u: "?u (fs4, []) =
           (if io_error env (ReadCall ?c) fs4 then Inl (FilesystemError, (fs4, []))
            else Inr (fs4, []))"
    using updateConfig_base_present[OF c4 needles_after_append(1), of a ?key ?k "[]"]
      needles_after_append(2)[of ?w host ?key ?k a]
    by (simp only: if_P)
  show ?thesis
    unfolding d by (simp add: run_unfold[OF v] st u)
qed

theorem second_run_changes_nothing_witness:
  "status (generateSharedSSHKey linux_ok (Some ''ci'') (Some ''GitHub'') Map.empty) = Success \<and>
   existsSync linux_ok
     (disk (generateSharedSSHKey linux_ok (Some ''ci'') (Some ''GitHub'') Map.empty))
     (privateKeyPath linux_ok (toLowerCase ''GitHub'') ''ci'') \<and>
   generateSharedSSHKey linux_ok (Some ''ci'') (Some ''GitHub'')
     (disk (generateSharedSSHKey linux_ok (Some ''ci'') (Some ''GitHub'') Map.empty)) =
   \<lparr>status = Success,
    disk = disk (generateSharedSSHKey linux_ok (Some ''ci'') (Some ''GitHub'') Map.empty),
    trace = []\<rparr>"
proof -
  have h: "status (generateSharedSSHKey linux_ok (Some ''ci'') (Some ''GitHub'') Map.empty)
             = Success"
    by code_simp
  have e: "existsSync linux_ok
     (disk (generateSharedSSHKey linux_ok (Some ''ci'') (Some ''GitHub'') Map.empty))
     (privateKeyPath linux_ok (toLowerCase ''GitHub'') ''ci'')"
    by code_simp
  have i: "\<not> io_error linux_ok (ReadCall (configPath linux_ok))
     (disk (generateSharedSSHKey linux_ok (Some ''ci'') (Some ''GitHub'') Map.empty))"
    by (simp add: linux_ok_def)
  from second_run_changes_nothing[OF h e] i
  have "generateSharedSSHKey linux_ok (Some ''ci'') (Some ''GitHub'')
     (disk (generateSharedSSHKey linux_ok (Some ''ci'') (Some ''GitHub'') Map.empty)) =
   \<lparr>status = Success,
    disk = disk (generateSharedSSHKey linux_ok (Some ''ci'') (Some ''GitHub'') Map.empty),
    trace = []\<rparr>"
    by (simp only: if_False)
  with h e show ?thesis by blast
qed

section \<open>Failure of key generation\<close>

text \<open>
  Claim C9 as stated does not hold. The program does nothing to known_hosts or to the
  config file after a failed key generation, but the command that failed may have
  written before it failed. For the alias \<open>x/../known_hosts\<close> the computed key path is
  the known_hosts path; a key generator that writes the private key and then fails at
  the public key, because the path of the public key is a directory, leaves a
  known_hosts file that was not there before, and the run exits with the key
  generation error.
\<close>

theorem failed_keygen_leaves_known_hosts:
  "keygenExit linux_pub_blocked ''github'' ''x/../known_hosts''
     (sharedDirOnly(''/nfs/ws/shared_ssh/known_hosts.pub'' \<mapsto> Directory)) = Some False \<and>
   \<not> existsSync linux_pub_blocked
       (sharedDirOnly(''/nfs/ws/shared_ssh/known_hosts.pub'' \<mapsto> Directory))
       (knownHostsPath linux_pub_blocked) \<and>
   status (generateSharedSSHKey linux_pub_blocked (Some ''x/../known_hosts'') (Some ''github'')
             (sharedDirOnly(''/nfs/ws/shared_ssh/known_hosts.pub'' \<mapsto> Directory)))
     = Failed KeyGenerationFailed \<and>
   lookup linux_pub_blocked
     (disk (generateSharedSSHKey linux_pub_blocked (Some ''x/../known_hosts'') (Some ''github'')
              (sharedDirOnly(''/nfs/ws/shared_ssh/known_hosts.pub'' \<mapsto> Directory))))
     (knownHostsPath linux_pub_blocked) = Some (RegularFile ''PRIVATE'' 384)"
  by code_simp

text \<open>
  Claim C9, amended. When the key generation command is launched and does not exit with
  status 0, the run ends with the key generation error and exit status 1. The program
  makes no file system call after the command: the operations of the run are the
  creation of the shared directory, when it was missing, and the launch of the command,
  and the file system at the end is the one the command left.
\<close>

theorem keygen_failure_leaves_files:
  assumes v: "a \<noteq> []" "p \<noteq> []" "hostMap (toLowerCase p) = Some host"
    and k: "keygenExit env (toLowerCase p) a fs = Some False"
  shows "status (generateSharedSSHKey env (Some a) (Some p) fs) = Failed KeyGenerationFailed \<and>
         exitCode (status (generateSharedSSHKey env (Some a) (Some p) fs)) = 1 \<and>
         trace (generateSharedSSHKey env (Some a) (Some p) fs) =
           (if existsSync env fs (sharedSSHDir env) then [] else [Mkdir (sharedSSHDir env)]) @
           [Exec (keygenCommand (privateKeyPath env (toLowerCase p) a) a)] \<and>
         disk (generateSharedSSHKey env (Some a) (Some p) fs) =
           snd (execSync env (keygenCommand (privateKeyPath env (toLowerCase p) a) a)
                  (if existsSync env fs (sharedSSHDir env) then fs
                   else withDirectories env fs (sharedSSHDir env)))"
  using k
  by (auto simp: run_unfold[OF v] keygenExit_def stepsBeforeConfig_def
        stepsBeforeKnownHosts_def createSharedSSHDir_eq generateKey_eq
        split: if_splits)

theorem keygen_failure_leaves_files_witness:
  "''ci'' \<noteq> [] \<and> ''github'' \<noteq> [] \<and> hostMap (toLowerCase ''github'') = Some ''github.com'' \<and>
   keygenExit linux_failing (toLowerCase ''github'') ''ci'' Map.empty = Some False \<and>
   status (generateSharedSSHKey linux_failing (Some ''ci'') (Some ''github'') Map.empty)
     = Failed KeyGenerationFailed \<and>
   exitCode (status (generateSharedSSHKey linux_failing (Some ''ci'') (Some ''github'')
     Map.empty)) = 1 \<and>
   trace (generateSharedSSHKey linux_failing (Some ''ci'') (Some ''github'') Map.empty) =
     (if existsSync linux_failing Map.empty (sharedSSHDir linux_failing) then []
      else [Mkdir (sharedSSHDir linux_failing)]) @
     [Exec (keygenCommand (privateKeyPath linux_failing (toLowerCase ''github'') ''ci'') ''ci'')] \<and>
   disk (generateSharedSSHKey linux_failing (Some ''ci'') (Some ''github'') Map.empty) =
     snd (execSync linux_failing
            (keygenCommand (privateKeyPath linux_failing (toLowerCase ''github'') ''ci'') ''ci'')
            (if existsSync linux_failing Map.empty (sharedSSHDir linux_failing) then Map.empty
             else withDirectories linux_failing Map.empty (sharedSSHDir linux_failing)))"
proof -
  have h1: "''ci'' \<noteq> []" and h2: "''github'' \<noteq> []" by simp_all
  have h3: "hostMap (toLowerCase ''github'') = Some ''github.com''" by code_simp
  have h4: "keygenExit linux_failing (toLowerCase ''github'') ''ci'' Map.empty = Some False"
    by code_simp
  from keygen_failure_leaves_files[OF h1 h2 h3 h4] h1 h2 h3 h4 show ?thesis by blast
qed

section \<open>The known_hosts file\<close>




section \<open>The config file\<close>






text \<open>
  Claim C4 as stated does not hold, for two reasons, each shown on a successful run
  that starts without a config file.
  \<^item> The alias is copied into the blocks as it is, so an alias that carries a line
    break followed by \<open>Host b\<close> puts further \<open>Host\<close> lines into the file: the new
    config has five stanza headers, not two.
  \<^item> The alias is copied into the command line as it is, so an alias that holds a
    command substitution makes the shell write the config file before the program reads
    it: with a substitution that writes the line \<open>Host x\<close>, the blocks are appended
    after that line and the config has three stanza headers.
\<close>

theorem fresh_config_other_stanzas:
  "(\<not> existsSync linux_ok Map.empty (configPath linux_ok) \<and>
    status (generateSharedSSHKey linux_ok (Some two_line_alias) (Some ''github'') Map.empty)
      = Success \<and>
    hostLines
      (contentOrEmpty
         (lookup linux_ok
            (disk (generateSharedSSHKey linux_ok (Some two_line_alias) (Some ''github'')
                     Map.empty))
            (configPath linux_ok))) =
      [''Host github.com'', ''Host b'', ''Host github.com-a'', ''Host b'', ''Host b'']) \<and>
   (\<not> existsSync (linux_echo ''Host x'') sharedDirOnly (configPath (linux_echo ''Host x'')) \<and>
    newline \<notin> set (echoAlias ''Host x'') \<and>
    status (generateSharedSSHKey (linux_echo ''Host x'') (Some (echoAlias ''Host x''))
              (Some ''github'') sharedDirOnly) = Success \<and>
    hostLines
      (contentOrEmpty
         (lookup (linux_echo ''Host x'')
            (disk (generateSharedSSHKey (linux_echo ''Host x'') (Some (echoAlias ''Host x''))
                     (Some ''github'') sharedDirOnly))
            (configPath (linux_echo ''Host x'')))) =
      [''Host x'', ''Host github.com'', ''Host github.com-'' @ echoAlias ''Host x''])"
  by code_simp

text \<open>
  Claim C4, amended. When a successful run, for an alias without a line break, finds no
  config file at the moment it reads it, it leaves a config file with exactly two stanza
  headers: first the one for the bare hostname, then the one for hostname, hyphen,
  alias.
\<close>

theorem fresh_config_two_stanzas:
  assumes s: "status (generateSharedSSHKey env (Some a) (Some p) fs) = Success"
    and h: "hostMap (toLowerCase p) = Some host"
    and x: "configAtRead env (toLowerCase p) a fs = Some None"
    and nl: "newline \<notin> set a"
  shows "isRegularFile
           (lookup env (disk (generateSharedSSHKey env (Some a) (Some p) fs)) (configPath env)) \<and>
         hostLines
           (contentOrEmpty
              (lookup env (disk (generateSharedSSHKey env (Some a) (Some p) fs))
                 (configPath env))) =
           [''Host '' @ host, ''Host '' @ host @ ''-'' @ a]"
proof -
  let ?key = "privateKeyPath env (toLowerCase p) a"
  let ?k = "knownHostsPath env"
  from fresh_config_content[OF s h x] obtain m where
    l: "lookup env (disk (generateSharedSSHKey env (Some a) (Some p) fs)) (configPath env) =
          Some (RegularFile (baseBlock host ?key ?k @ aliasBlock host a ?key ?k) m)"
    by blast
  have "newline \<notin> set host" "newline \<notin> set (toLowerCase p)"
    using hostMap_no_newline[OF h] by simp_all
  then have "hostLines (baseBlock host ?key ?k @ aliasBlock host a ?key ?k) =
               [''Host '' @ host, ''Host '' @ host @ ''-'' @ a]"
    using nl privateKeyPath_no_newline[of "toLowerCase p" a env] fixed_paths_no_newline(2)[of env]
    by (intro hostLines_blocks) simp_all
  then show ?thesis
    unfolding l by (simp add: isRegularFile_def contentOrEmpty_def)
qed

theorem fresh_config_two_stanzas_witness:
  "status (generateSharedSSHKey linux_ok (Some ''ci'') (Some ''github'') Map.empty) = Success \<and>
   hostMap (toLowerCase ''github'') = Some ''github.com'' \<and>
   \<not> existsSync linux_ok Map.empty (configPath linux_ok) \<and>
   configAtRead linux_ok (toLowerCase ''github'') ''ci'' Map.empty = Some None \<and>
   newline \<notin> set ''ci'' \<and>
   isRegularFile
     (lookup linux_ok
        (disk (generateSharedSSHKey linux_ok (Some ''ci'') (Some ''github'') Map.empty))
        (configPath linux_ok)) \<and>
   hostLines
     (contentOrEmpty
        (lookup linux_ok
           (disk (generateSharedSSHKey linux_ok (Some ''ci'') (Some ''github'') Map.empty))
           (configPath linux_ok))) =
     [''Host '' @ ''github.com'', ''Host '' @ ''github.com'' @ ''-'' @ ''ci'']"
proof -
  have h1: "status (generateSharedSSHKey linux_ok (Some ''ci'') (Some ''github'') Map.empty)
              = Success"
    by code_simp
  have h2: "hostMap (toLowerCase ''github'') = Some ''github.com''" by code_simp
  have h3: "\<not> existsSync linux_ok Map.empty (configPath linux_ok)" by code_simp
  have h4: "configAtRead linux_ok (toLowerCase ''github'') ''ci'' Map.empty = Some None"
    by code_simp
  have h5: "newline \<notin> set ''ci''" by code_simp
  from fresh_config_two_stanzas[OF h1 h2 h4 h5] h1 h2 h3 h4 h5
  show ?thesis by blast
qed

end
